theory Spec2Isabelle
  imports Main "HOL-Library.Word"
begin

section \<open>Bytes, storage and the byte source\<close>

text \<open>
  The library \<^verbatim>\<open>p1-lib.c\<close> reads meter telegrams from a file descriptor into a
  caller-supplied buffer. A \<^verbatim>\<open>uint8_t\<close> is an 8-bit word. The buffer is a pointer
  into storage: \<open>buf i\<close> is the byte at address \<^verbatim>\<open>buf + i\<close>, for every \<open>i\<close>, also
  behind the \<^verbatim>\<open>bufsize\<close> bytes that were allocated, because the C code computes such
  addresses and stores through them without a check of its own.
\<close>

type_synonym byte = "8 word"
type_synonym mem = "nat \<Rightarrow> byte"

text \<open>The characters the source names, as their ASCII codes.\<close>

abbreviation (input) ch_slash :: byte where "ch_slash \<equiv> 0x2F"
abbreviation (input) ch_bang :: byte where "ch_bang \<equiv> 0x21"
abbreviation (input) ch_cr :: byte where "ch_cr \<equiv> 0x0D"
abbreviation (input) ch_lf :: byte where "ch_lf \<equiv> 0x0A"
abbreviation (input) ch_backslash :: byte where "ch_backslash \<equiv> 0x5C"

text \<open>
  One call \<^verbatim>\<open>read(fd, p, 1)\<close> returns 1 and stores a byte, or returns 0 (end of
  file, or the inter-character timeout of the serial line), or returns -1 (an error).
  The descriptor is modelled by the outcomes of the calls still to come; once the
  list is used up every further call returns 0. A run of the C code that returns has
  made finitely many calls, so it is the run on the finite list of their outcomes.
\<close>

datatype rd = Byte byte | NoData | RdError

text \<open>\<^verbatim>\<open>read(fd, buf + i, 1)\<close>: the return value, the storage and the rest of the source.\<close>

fun read_buf :: "mem \<Rightarrow> nat \<Rightarrow> rd list \<Rightarrow> int \<times> mem \<times> rd list" where
  "read_buf buf i [] = (0, buf, [])"
| "read_buf buf i (Byte b # rs) = (1, buf(i := b), rs)"
| "read_buf buf i (NoData # rs) = (0, buf, rs)"
| "read_buf buf i (RdError # rs) = (- 1, buf, rs)"

section \<open>\<^verbatim>\<open>crc_telegram\<close>\<close>

text \<open>
  \<^verbatim>\<open>uint16_t crc_telegram (const uint8_t *data, unsigned int length)\<close>.
  The length is a 32-bit unsigned value, so \<^verbatim>\<open>length - 3\<close> wraps around below 3.
  The primitive \<^verbatim>\<open>crc16\<close> comes from \<^verbatim>\<open>crc16.h\<close>, which is not part of the
  sources at hand: it is a parameter, applied to the bytes \<^verbatim>\<open>data[0 .. n)\<close>.
\<close>

definition crc_telegram :: "(byte list \<Rightarrow> 16 word) \<Rightarrow> mem \<Rightarrow> 32 word \<Rightarrow> 16 word" where
  "crc_telegram crc16 data length' =
     (if data (unat (length' - 3)) = ch_bang then 0
      else if data (unat (length' - 7)) = ch_bang
        then crc16 (map data [0 ..< unat (length' - 6)])
      else 0)"

text \<open>
  Modelled from the spec: the CRC-16 primitive of \<^verbatim>\<open>crc16.h\<close>, which the spec fixes
  as CRC-16/ARC: reflected polynomial \<^verbatim>\<open>0xA001\<close>, initial value 0, no final XOR.
\<close>

unbundle bit_operations_syntax

fun crc16_bits :: "nat \<Rightarrow> 16 word \<Rightarrow> 16 word" where
  "crc16_bits 0 c = c"
| "crc16_bits (Suc n) c =
     crc16_bits n (if c AND 1 = 1 then drop_bit 1 c XOR 0xA001 else drop_bit 1 c)"

definition crc16_update :: "16 word \<Rightarrow> byte \<Rightarrow> 16 word" where
  "crc16_update c b = crc16_bits 8 (c XOR ucast b)"

definition crc16_arc :: "byte list \<Rightarrow> 16 word" where
  "crc16_arc bs = foldl crc16_update 0 bs"

section \<open>\<^verbatim>\<open>read_telegram\<close>: the P1 framer\<close>

text \<open>
  \<^verbatim>\<open>size_t read_telegram (int fd, uint8_t *buf, size_t bufsize, size_t maxfailbytes)\<close>.
  The result carries what the C function leaves behind: the returned length, the
  storage, the rest of the byte source, and the local counter \<^verbatim>\<open>failed\<close> at the
  moment of return. The counters \<^verbatim>\<open>offset\<close> and \<^verbatim>\<open>failed\<close> are \<^verbatim>\<open>size_t\<close>; they
  never exceed the number of bytes read so far, so they are natural numbers here.
\<close>

record framed =
  rt_len :: nat
  rt_buf :: mem
  rt_inp :: "rd list"
  rt_failed :: nat

text \<open>The loop condition \<^verbatim>\<open>len > 0 && (maxfailbytes == 0 || failed < maxfailbytes)\<close>.\<close>

definition again :: "nat \<Rightarrow> int \<Rightarrow> nat \<Rightarrow> bool" where
  "again maxfailbytes len failed \<longleftrightarrow> len > 0 \<and> (maxfailbytes = 0 \<or> failed < maxfailbytes)"

text \<open>
  The two reads behind a \<^verbatim>\<open>!\<close> (lines 67-68) and the four reads of a CRC field
  (lines 77-80): \<^verbatim>\<open>len\<close> is the sum of the return values.
\<close>

definition read2 :: "mem \<Rightarrow> nat \<Rightarrow> rd list \<Rightarrow> int \<times> mem \<times> rd list" where
  "read2 buf i inp =
     (case read_buf buf i inp of (l1, buf1, inp1) \<Rightarrow>
      case read_buf buf1 (i + 1) inp1 of (l2, buf2, inp2) \<Rightarrow> (l1 + l2, buf2, inp2))"

definition read4 :: "mem \<Rightarrow> nat \<Rightarrow> rd list \<Rightarrow> int \<times> mem \<times> rd list" where
  "read4 buf i inp =
     (case read_buf buf i inp of (l1, buf1, inp1) \<Rightarrow>
      case read_buf buf1 (i + 1) inp1 of (l2, buf2, inp2) \<Rightarrow>
      case read_buf buf2 (i + 2) inp2 of (l3, buf3, inp3) \<Rightarrow>
      case read_buf buf3 (i + 3) inp3 of (l4, buf4, inp4) \<Rightarrow> (l1 + l2 + l3 + l4, buf4, inp4))"

text \<open>
  What follows a stored \<^verbatim>\<open>!\<close> (lines 65-92), with \<open>offset\<close> already advanced behind it:
  either a telegram length is returned (\<open>Inl\<close>), or the candidate is dropped and the
  scan restarts with the new \<^verbatim>\<open>len\<close> and \<^verbatim>\<open>failed\<close> (\<open>Inr\<close>).
\<close>

definition trailer :: "mem \<Rightarrow> nat \<Rightarrow> nat \<Rightarrow> rd list \<Rightarrow> (nat \<times> mem \<times> rd list) + (int \<times> nat \<times> mem \<times> rd list)" where
  "trailer buf offset failed inp =
     (case read2 buf offset inp of (len, buf2, inp2) \<Rightarrow>
        if len = 2 then
          if buf2 offset = ch_cr then Inl (offset + 2, buf2, inp2)
          else
            (case read4 buf2 (offset + 2) inp2 of (len4, buf4, inp4) \<Rightarrow>
               if len4 = 4 \<and> buf4 (offset + 2 + 2) = ch_cr then Inl (offset + 2 + 4, buf4, inp4)
               else Inr (len4, failed + nat (int (offset + 2) + len4), buf4, inp4))
        else Inr (len, failed + nat (int offset + len), buf2, inp2))"

lemma read_buf_length: "read_buf buf i inp = (l, buf', inp') \<Longrightarrow> length inp' \<le> length inp"
  by (cases "(buf, i, inp)" rule: read_buf.cases) auto

lemma read2_length: "read2 buf i inp = (l, buf', inp') \<Longrightarrow> length inp' \<le> length inp"
  unfolding read2_def
  by (auto split: prod.splits dest!: read_buf_length)

lemma read4_length: "read4 buf i inp = (l, buf', inp') \<Longrightarrow> length inp' \<le> length inp"
  unfolding read4_def
  by (auto split: prod.splits dest!: read_buf_length)

lemma trailer_length:
  "trailer buf offset failed inp = Inr (l, f, buf', inp') \<Longrightarrow> length inp' \<le> length inp"
  unfolding trailer_def
  by (auto split: prod.splits if_splits dest!: read2_length read4_length)

text \<open>
  The \<^verbatim>\<open>do ... while\<close> loop (lines 53-102). Each equation is one iteration on the
  outcome of the read of line 54; a read that returns 0 or -1 leaves the loop and the
  function returns 0 (line 106).
\<close>

function rt_loop :: "nat \<Rightarrow> nat \<Rightarrow> bool \<Rightarrow> nat \<Rightarrow> nat \<Rightarrow> mem \<Rightarrow> rd list \<Rightarrow> framed" where
  "rt_loop bufsize maxfailbytes telegram offset failed buf [] =
     \<lparr>rt_len = 0, rt_buf = buf, rt_inp = [], rt_failed = failed\<rparr>"
| "rt_loop bufsize maxfailbytes telegram offset failed buf (NoData # rs) =
     \<lparr>rt_len = 0, rt_buf = buf, rt_inp = rs, rt_failed = failed\<rparr>"
| "rt_loop bufsize maxfailbytes telegram offset failed buf (RdError # rs) =
     \<lparr>rt_len = 0, rt_buf = buf, rt_inp = rs, rt_failed = failed\<rparr>"
| "rt_loop bufsize maxfailbytes telegram offset failed buf (Byte byte # rs) =
     (if \<not> telegram \<and> byte = ch_slash then
        (if again maxfailbytes 1 failed
         then rt_loop bufsize maxfailbytes True (offset + 1) failed (buf(offset := byte)) rs
         else \<lparr>rt_len = 0, rt_buf = buf(offset := byte), rt_inp = rs, rt_failed = failed\<rparr>)
      else if telegram \<and> offset < bufsize then
        (if byte = ch_bang then
           (case trailer (buf(offset := byte)) (offset + 1) failed rs of
              Inl (n, buf', rs') \<Rightarrow> \<lparr>rt_len = n, rt_buf = buf', rt_inp = rs', rt_failed = failed\<rparr>
            | Inr (len, failed', buf', rs') \<Rightarrow>
                if again maxfailbytes len failed'
                then rt_loop bufsize maxfailbytes False 0 failed' buf' rs'
                else \<lparr>rt_len = 0, rt_buf = buf', rt_inp = rs', rt_failed = failed'\<rparr>)
         else
           (if again maxfailbytes 1 failed
            then rt_loop bufsize maxfailbytes telegram (offset + 1) failed (buf(offset := byte)) rs
            else \<lparr>rt_len = 0, rt_buf = buf(offset := byte), rt_inp = rs, rt_failed = failed\<rparr>))
      else if offset \<ge> bufsize then
        (if again maxfailbytes 1 (failed + offset)
         then rt_loop bufsize maxfailbytes False 0 (failed + offset) buf rs
         else \<lparr>rt_len = 0, rt_buf = buf, rt_inp = rs, rt_failed = failed + offset\<rparr>)
      else
        (if again maxfailbytes 1 failed
         then rt_loop bufsize maxfailbytes telegram offset failed buf rs
         else \<lparr>rt_len = 0, rt_buf = buf, rt_inp = rs, rt_failed = failed\<rparr>))"
  by pat_completeness auto
termination
  by (relation "measure (\<lambda>(bufsize, maxfailbytes, telegram, offset, failed, buf, inp). length inp)")
     (auto dest!: trailer_length)

definition read_telegram :: "rd list \<Rightarrow> mem \<Rightarrow> nat \<Rightarrow> nat \<Rightarrow> framed" where
  "read_telegram fd buf bufsize maxfailbytes = rt_loop bufsize maxfailbytes False 0 0 buf fd"

section \<open>The serial line and the session\<close>

text \<open>
  The baud rates the source names. A \<^verbatim>\<open>struct termios\<close> is reduced to what the
  source sets: the rate for each direction, the character size, the parity bit and
  the inter-character timer \<^verbatim>\<open>c_cc[VTIME]\<close> (a \<^verbatim>\<open>cc_t\<close>, one byte). \<^verbatim>\<open>CLOCAL\<close> and
  \<^verbatim>\<open>CREAD\<close> are set in every assignment and the other flag words are always 0.
\<close>

datatype baud = B0 | B300 | B600 | B1200 | B2400 | B4800 | B9600 | B19200 | B115200

record termios =
  ispeed :: baud
  ospeed :: baud
  csize :: nat
  parenb :: bool
  vtime :: byte

text \<open>
  \<^verbatim>\<open>t.c_cflag = Bxxx | CSn | [PARENB] | CLOCAL | CREAD\<close>: the flag word carries the
  rate for both directions. \<^verbatim>\<open>cfgetispeed\<close>, \<^verbatim>\<open>cfsetispeed\<close> and \<^verbatim>\<open>cfsetspeed\<close>
  are the POSIX functions: the first two read and set the input rate, the third
  sets both. Nothing below looks at the output rate after \<^verbatim>\<open>cfsetispeed\<close>, which
  a C library that keeps one rate for both directions changes as well.
\<close>

definition set_cflag :: "baud \<Rightarrow> nat \<Rightarrow> bool \<Rightarrow> termios \<Rightarrow> termios" where
  "set_cflag b cs par t = t\<lparr>ispeed := b, ospeed := b, csize := cs, parenb := par\<rparr>"

definition cfgetispeed :: "termios \<Rightarrow> baud" where
  "cfgetispeed t = ispeed t"

definition cfsetispeed :: "termios \<Rightarrow> baud \<Rightarrow> termios" where
  "cfsetispeed t b = t\<lparr>ispeed := b\<rparr>"

definition cfsetspeed :: "termios \<Rightarrow> baud \<Rightarrow> termios" where
  "cfsetspeed t b = t\<lparr>ispeed := b, ospeed := b\<rparr>"

text \<open>
  What is behind the descriptor: \<open>rx\<close>, the outcomes of the reads still to come
  (what a flush of the input queue discards is not among them); \<open>wr\<close>, the return
  values of the writes still to come (once used up, a write returns its full
  count); \<open>tx\<close>, the bytes written so far; \<open>tty\<close>, whether it is a terminal; and
  \<open>line\<close>, the attributes in force.
\<close>

record device =
  rx :: "rd list"
  wr :: "int list"
  tx :: "byte list"
  tty :: bool
  line :: termios

definition write_dev :: "device \<Rightarrow> byte list \<Rightarrow> int \<times> device" where
  "write_dev d bs =
     (case wr d of
        [] \<Rightarrow> (int (length bs), d\<lparr>tx := tx d @ bs\<rparr>)
      | r # rs \<Rightarrow> (r, d\<lparr>wr := rs, tx := tx d @ take (nat r) bs\<rparr>))"

definition tcsetattr :: "device \<Rightarrow> termios \<Rightarrow> device" where
  "tcsetattr d t = (if tty d then d\<lparr>line := t\<rparr> else d)"

text \<open>
  The grammar (\<^verbatim>\<open>parser_init\<close>, \<^verbatim>\<open>parser_execute\<close>, \<^verbatim>\<open>parser_finish\<close>) is generated
  from a Ragel source that is not part of the sources at hand. It is a parameter:
  \<open>parser_init\<close>, and \<open>parser_run\<close> for \<^verbatim>\<open>parser_execute\<close> followed by
  \<^verbatim>\<open>parser_finish\<close> on the bytes \<^verbatim>\<open>buffer[0 .. len)\<close>, which gives the new parser
  and the status. Of the parser only the two fields the library reads are kept.
\<close>

record parser =
  crc16 :: "16 word"
  parse_errors :: int

record grammar =
  parser_init :: "parser \<Rightarrow> parser"
  parser_run :: "parser \<Rightarrow> byte list \<Rightarrow> parser \<times> int"

text \<open>
  \<^verbatim>\<open>telegram_parser\<close>. \<open>buffer\<close> is \<open>None\<close> for a null pointer; \<open>dumpfile\<close> is \<open>None\<close>
  for a null stream and otherwise holds what this session has appended; \<open>dev\<close> is the
  device behind \<open>fd\<close>.
\<close>

record session =
  parser :: parser
  status :: int
  buffer :: "mem option"
  bufsize :: nat
  len :: nat
  fd :: int
  terminal :: bool
  timeout :: int
  oldtio :: termios
  newtio :: termios
  dumpfile :: "byte list option"
  mode :: byte
  dev :: device

text \<open>
  Lines 241-243 and 508-510: initialise the grammar, feed it \<^verbatim>\<open>buffer[0 .. len)\<close>,
  store the status.
\<close>

definition run_parser :: "grammar \<Rightarrow> mem \<Rightarrow> session \<Rightarrow> session" where
  "run_parser G b obj =
     (case parser_run G (parser_init G (parser obj)) (map b [0 ..< len obj]) of
        (p, st) \<Rightarrow> obj\<lparr>parser := p, status := st\<rparr>)"

text \<open>Lines 249-255 and 511-517: a telegram with parse errors goes to the dump file.\<close>

definition dump_errors :: "mem \<Rightarrow> session \<Rightarrow> session" where
  "dump_errors b obj =
     (if parse_errors (parser obj) \<noteq> 0 then
        (case dumpfile obj of
           None \<Rightarrow> obj
         | Some f \<Rightarrow> obj\<lparr>dumpfile := Some (f @ map b [0 ..< len obj])\<rparr>)
      else obj)"

section \<open>\<^verbatim>\<open>telegram_parser_open\<close> and \<^verbatim>\<open>telegram_parser_open_d0\<close>\<close>

text \<open>
  The system calls of \<^verbatim>\<open>telegram_parser_open\<close> and the two macros of the missing
  header \<^verbatim>\<open>p1-lib.h\<close> are parameters: \<open>sys_open\<close> gives the descriptor (negative
  on failure) and the device, \<open>sys_fopen\<close> says whether the dump file opens,
  \<open>sys_malloc\<close> gives the storage or a null pointer.
\<close>

record os =
  READ_TIMEOUT :: int
  PARSER_BUFLEN :: nat
  sys_open :: "string \<Rightarrow> int \<times> device"
  sys_fopen :: "string \<Rightarrow> bool"
  sys_malloc :: "nat \<Rightarrow> mem option"

text \<open>Lines 134-160; \<open>Inl\<close> is the return of line 139.\<close>

definition open_infile :: "os \<Rightarrow> string option \<Rightarrow> session \<Rightarrow> session + session" where
  "open_infile sys infile obj =
     (case infile of
        None \<Rightarrow> Inr obj
      | Some path \<Rightarrow>
          (case sys_open sys path of (f, d) \<Rightarrow>
             if f < 0 then Inl (obj\<lparr>fd := f\<rparr>)
             else if tty d then
               (let t = (set_cflag B115200 8 False
                           \<lparr>ispeed = B0, ospeed = B0, csize = 5, parenb = False, vtime = 0\<rparr>)
                         \<lparr>vtime := word_of_int (timeout obj * 10)\<rparr>
                in Inr (obj\<lparr>fd := f, oldtio := line d, terminal := True, newtio := t,
                             dev := tcsetattr d t\<rparr>))
             else Inr (obj\<lparr>fd := f, dev := d\<rparr>)))"

definition telegram_parser_open ::
  "os \<Rightarrow> grammar \<Rightarrow> session option \<Rightarrow> string option \<Rightarrow> nat \<Rightarrow> int \<Rightarrow> string option
     \<Rightarrow> int \<times> session option" where
  "telegram_parser_open sys G objp infile bufsize' timeout' dumpfile' =
     (case objp of
        None \<Rightarrow> (- 1, None)
      | Some obj0 \<Rightarrow>
          (let obj1 = obj0\<lparr>parser := parser_init G (parser obj0), status := 0, buffer := None,
                            bufsize := 0, len := 0, fd := - 1, terminal := False,
                            timeout := (if timeout' \<le> 0 then READ_TIMEOUT sys else timeout')\<rparr>
           in case open_infile sys infile obj1 of
                Inl obj2 \<Rightarrow> (- 2, Some obj2)
              | Inr obj2 \<Rightarrow>
                  if (case dumpfile' of None \<Rightarrow> False | Some path \<Rightarrow> \<not> sys_fopen sys path)
                  then (- 3, Some (obj2\<lparr>dumpfile := None\<rparr>))
                  else
                    (let obj3 = obj2\<lparr>dumpfile := (case dumpfile' of None \<Rightarrow> None | Some path \<Rightarrow> Some [])\<rparr>;
                         n = (if bufsize' = 0 then PARSER_BUFLEN sys else bufsize')
                     in case sys_malloc sys n of
                          None \<Rightarrow> (- 4, Some obj3)
                        | Some b \<Rightarrow> (0, Some (obj3\<lparr>buffer := Some b, bufsize := n, mode := 0x50\<rparr>)))))"

definition telegram_parser_open_d0 ::
  "os \<Rightarrow> grammar \<Rightarrow> session option \<Rightarrow> string option \<Rightarrow> nat \<Rightarrow> int \<Rightarrow> string option
     \<Rightarrow> int \<times> session option" where
  "telegram_parser_open_d0 sys G objp infile bufsize' timeout' dumpfile' =
     (case objp of
        None \<Rightarrow> (- 1, None)
      | Some obj0 \<Rightarrow>
          (case telegram_parser_open sys G objp infile bufsize' timeout' dumpfile' of
             (result, objp1) \<Rightarrow>
               if result < 0 then (result, objp1)
               else
                 (case objp1 of
                    None \<Rightarrow> (result, None)
                  | Some obj \<Rightarrow>
                      (let t = set_cflag B300 7 True (newtio obj)
                       in (0, Some (obj\<lparr>newtio := t,
                                        dev := (if fd obj < 0 then dev obj else tcsetattr (dev obj) t),
                                        mode := 0\<rparr>))))))"

section \<open>\<^verbatim>\<open>telegram_parser_read\<close>: one P1 read\<close>

text \<open>
  Lines 258-271: the baud probe. Nothing is read from the descriptor here; the
  flush of line 269 is accounted for in \<open>rx\<close>.
\<close>

definition baud_probe :: "session \<Rightarrow> session" where
  "baud_probe obj =
     (if terminal obj \<and> len obj = 0 \<and> mode obj = 0x50 then
        (let baudrate = cfgetispeed (newtio obj);
             t = (if baudrate = B115200 then cfsetispeed (newtio obj) B9600
                  else cfsetispeed (newtio obj) B115200)
         in obj\<lparr>newtio := t, dev := tcsetattr (dev obj) t\<rparr>)
      else obj)"

text \<open>
  The result is the return value and the session as the call leaves it. The local
  \<^verbatim>\<open>crc\<close> starts at 0 and is assigned only when the grammar reaches its final state;
  \<^verbatim>\<open>obj->len\<close>, a \<^verbatim>\<open>size_t\<close>, is cut to the 32 bits of \<^verbatim>\<open>crc_telegram\<close>'s parameter.
\<close>

definition computed_crc :: "(byte list \<Rightarrow> 16 word) \<Rightarrow> mem \<Rightarrow> session \<Rightarrow> 16 word" where
  "computed_crc crc16fn b obj =
     (if len obj \<noteq> 0 \<and> status obj = 1 then crc_telegram crc16fn b (of_nat (len obj)) else 0)"

text \<open>Lines 236-256: frame a telegram and, if there is one, parse it.\<close>

definition frame_and_parse :: "grammar \<Rightarrow> mem \<Rightarrow> session \<Rightarrow> mem \<times> session" where
  "frame_and_parse G b obj =
     (let r = read_telegram (rx (dev obj)) b (bufsize obj) (bufsize obj);
          obj1 = obj\<lparr>parser := (parser obj)\<lparr>crc16 := 0\<rparr>, len := rt_len r,
                     buffer := Some (rt_buf r), dev := (dev obj)\<lparr>rx := rt_inp r\<rparr>\<rparr>
      in (rt_buf r,
          if len obj1 \<noteq> 0 then dump_errors (rt_buf r) (run_parser G (rt_buf r) obj1) else obj1))"

definition telegram_parser_read ::
  "grammar \<Rightarrow> (byte list \<Rightarrow> 16 word) \<Rightarrow> session option \<Rightarrow> int \<times> session option" where
  "telegram_parser_read G crc16fn objp =
     (case objp of
        None \<Rightarrow> (- 1, None)
      | Some obj \<Rightarrow>
          (case buffer obj of
             None \<Rightarrow> (- 2, objp)
           | Some b \<Rightarrow>
               if bufsize obj = 0 then (- 2, objp)
               else if fd obj \<le> 0 then (- 3, objp)
               else
                 (case frame_and_parse G b obj of (b', obj2) \<Rightarrow>
                    (let crc = computed_crc crc16fn b' obj2;
                         obj3 = baud_probe obj2
                     in if crc16 (parser obj3) \<noteq> 0 \<and> crc16 (parser obj3) \<noteq> crc
                        then (- 4, Some obj3)
                        else (0, Some obj3)))))"

section \<open>\<^verbatim>\<open>telegram_parser_read_d0\<close>: one D0 read\<close>

text \<open>\<^verbatim>\<open>obj->bufsize - 1\<close> in \<^verbatim>\<open>size_t\<close> arithmetic (64 bits): it wraps around at 0.\<close>

definition size_pred :: "nat \<Rightarrow> nat" where
  "size_pred n = (if n = 0 then 2 ^ 64 - 1 else n - 1)"

text \<open>Lines 329-334: up to 65 NUL bytes, given up at the first write that fails.\<close>

fun wakeup :: "nat \<Rightarrow> device \<Rightarrow> device" where
  "wakeup 0 d = d"
| "wakeup (Suc n) d = (case write_dev d [0] of (r, d') \<Rightarrow> if r < 0 then d' else wakeup n d')"

definition signonseq :: "byte list" where
  "signonseq = [0x2F, 0x3F, 0x21, 0x0D, 0x0A]"

definition signoffseq :: "byte list" where
  "signoffseq = [0x06, 0x01, 0x42, 0x30, 0x03, 0x71]"

definition ackseq :: "byte \<Rightarrow> byte list" where
  "ackseq c = [0x06, 0x30, c, 0x30, 0x0D, 0x0A]"

text \<open>
  Lines 362-365: the identification string, one byte at a time. The result is
  \<^verbatim>\<open>idx\<close>, the storage and the rest of the source.
\<close>

function id_loop :: "nat \<Rightarrow> nat \<Rightarrow> mem \<Rightarrow> rd list \<Rightarrow> nat \<times> mem \<times> rd list" where
  "id_loop bufsize' idx b inp =
     (case read_buf b (idx + 1) inp of (l, b', inp') \<Rightarrow>
        if idx + 1 < bufsize' \<and> l = 1 \<and> b' (idx + 1) \<noteq> ch_lf
        then id_loop bufsize' (idx + 1) b' inp'
        else (idx + 1, b', inp'))"
  by pat_completeness auto
termination
  by (relation "measure (\<lambda>(bufsize', idx, b, inp). bufsize' - idx)") auto

declare id_loop.simps [simp del]

text \<open>
  Lines 372-416: the \<^verbatim>\<open>switch\<close> on byte 4, started from \<^verbatim>\<open>mode = 0\<close> and
  \<^verbatim>\<open>baudrate = B300\<close>. A letter case sets mode \<^verbatim>\<open>'B'\<close> and falls through to the
  digit case below it.
\<close>

definition ident_switch :: "byte \<Rightarrow> byte \<times> baud" where
  "ident_switch c =
     (if c = 0x41 then (0x42, B300) else if c = 0x30 then (0, B300)
      else if c = 0x42 then (0x42, B600) else if c = 0x31 then (0, B600)
      else if c = 0x43 then (0x42, B1200) else if c = 0x32 then (0, B1200)
      else if c = 0x44 then (0x42, B2400) else if c = 0x33 then (0, B2400)
      else if c = 0x45 then (0x42, B4800) else if c = 0x34 then (0, B4800)
      else if c = 0x46 then (0x42, B9600) else if c = 0x35 then (0, B9600)
      else if c = 0x47 then (0x42, B19200) else if c = 0x36 then (0, B19200)
      else if c \<ge> 0x20 \<and> c \<noteq> ch_slash \<and> c \<noteq> ch_bang \<and> c \<le> 0x7e then (0x41, B300)
      else (0, B300))"

text \<open>Lines 443-449: the change of rate, in every mode but \<^verbatim>\<open>'A'\<close>.\<close>

definition change_baud :: "baud \<Rightarrow> session \<Rightarrow> session" where
  "change_baud baudrate obj =
     (if mode obj \<noteq> 0x41 then
        (let t = cfsetspeed (newtio obj) baudrate
         in obj\<lparr>newtio := t, dev := tcsetattr (dev obj) t\<rparr>)
      else obj)"

text \<open>
  Lines 375-459, after the identification string has been read up to index \<open>idx\<close>:
  \<open>Inl\<close> is a return (-8 or -6), \<open>Inr\<close> the session that goes on to the body.
\<close>

definition classify :: "mem \<Rightarrow> nat \<Rightarrow> session \<Rightarrow> (int \<times> session) + session" where
  "classify b idx obj =
     (if b idx = ch_lf \<and> b (idx - 1) = ch_cr then
        (case ident_switch (b 4) of (m, baudrate) \<Rightarrow>
           if m = 0 then
             (if b 5 = ch_backslash \<and> b 6 = 0x32
              then Inl (- 8, obj\<lparr>buffer := Some b, mode := 0x45\<rparr>)
              else
                (let m' = (if b 5 = ch_backslash then 0x45 else 0x43);
                     d = snd (write_dev (dev obj) (ackseq (b 4)))
                 in Inr (change_baud baudrate (obj\<lparr>buffer := Some b, mode := m', dev := d\<rparr>))))
           else Inr (change_baud baudrate (obj\<lparr>buffer := Some b, mode := m\<rparr>)))
      else
        Inl (- 6, obj\<lparr>buffer := Some (if idx < size_pred (bufsize obj) then b(idx + 1 := 0)
                                         else b(idx := 0)),
                       mode := 0\<rparr>))"

text \<open>
  Lines 322-460, entered when the session is on a terminal and its mode is not
  \<^verbatim>\<open>'P'\<close>. The return value of the sign-on write, an \<^verbatim>\<open>ssize_t\<close>, is compared with
  \<^verbatim>\<open>strlen(signonseq)\<close>, a \<^verbatim>\<open>size_t\<close>: the comparison is unsigned, so -1 is not
  below 5. \<open>Inr\<close> carries the session and \<^verbatim>\<open>idx\<close>.
\<close>

definition handshake :: "mem \<Rightarrow> session \<Rightarrow> (int \<times> session) + (session \<times> mem \<times> nat)" where
  "handshake b obj =
     (case write_dev (wakeup 65 (dev obj)) signonseq of (w, d) \<Rightarrow>
        if w mod 2 ^ 64 < 5 then Inl (- 3, obj\<lparr>dev := d\<rparr>)
        else
          (case read_buf b 0 (rx d) of (l, b1, inp1) \<Rightarrow>
             (let obj1 = obj\<lparr>buffer := Some b1, dev := d\<lparr>rx := inp1\<rparr>\<rparr> in
              if l < 0 then Inl (- 4, obj1)
              else if l = 0 \<or> b1 0 \<noteq> ch_slash then Inl (- 5, obj1)
              else
                (case id_loop (bufsize obj) 0 b1 inp1 of (idx, b2, inp2) \<Rightarrow>
                   (let b3 = (if idx < size_pred (bufsize obj) then b2(idx + 1 := 0) else b2);
                        obj2 = obj\<lparr>buffer := Some b3, dev := d\<lparr>rx := inp2\<rparr>, mode := 0\<rparr>
                    in map_sum (\<lambda>ret. ret) (\<lambda>obj3. (obj3, b3, idx)) (classify b3 idx obj2))))))"

text \<open>
  Lines 475-495: the body, one byte at a time. The result says whether the loop
  was left by the \<^verbatim>\<open>return -9\<close> of line 490, then \<^verbatim>\<open>telegram\<close>, \<^verbatim>\<open>idx\<close>, the
  storage and the rest of the source.
\<close>

fun body_loop :: "nat \<Rightarrow> nat \<Rightarrow> mem \<Rightarrow> rd list \<Rightarrow> bool \<times> bool \<times> nat \<times> mem \<times> rd list" where
  "body_loop bufsize' idx b [] = (False, False, idx, b, [])"
| "body_loop bufsize' idx b (NoData # rs) = (False, False, idx, b, rs)"
| "body_loop bufsize' idx b (RdError # rs) = (False, False, idx, b, rs)"
| "body_loop bufsize' idx b (Byte c # rs) =
     (if c = ch_bang then (False, True, idx, b(idx := c), rs)
      else if c < 0x20 \<or> c < 0x7e then (True, False, idx, b(idx := c), rs)
      else if idx + 1 < bufsize' then body_loop bufsize' (idx + 1) (b(idx := c)) rs
      else (False, False, idx + 1, b(idx := c), rs))"

text \<open>Lines 462-519, with \<^verbatim>\<open>idx\<close> as the handshake left it (0 without one).\<close>

definition read_body :: "grammar \<Rightarrow> mem \<Rightarrow> nat \<Rightarrow> session \<Rightarrow> int \<times> session" where
  "read_body G b idx obj =
     (if idx + 1 \<ge> size_pred (bufsize obj) then (- 7, obj)
      else
        (case body_loop (bufsize obj) (idx + 1) b (rx (dev obj)) of
           (aborted, telegram, idx', b', inp') \<Rightarrow>
             (let obj1 = obj\<lparr>buffer := Some b', dev := (dev obj)\<lparr>rx := inp'\<rparr>\<rparr> in
              if aborted then (- 9, obj1)
              else
                (let obj2 = (if telegram \<and> terminal obj1 \<and> mode obj1 \<noteq> 0x50
                             then obj1\<lparr>dev := snd (write_dev (dev obj1) signoffseq)\<rparr>
                             else obj1)
                 in (0, dump_errors b' (run_parser G b' (obj2\<lparr>len := idx'\<rparr>)))))))"

text \<open>
  The whole call. The source tests neither \<^verbatim>\<open>obj->buffer\<close> nor \<^verbatim>\<open>obj->bufsize\<close>; with a
  null buffer its loads and stores have no defined behaviour and the model gives
  no result (\<open>None\<close>).
\<close>

definition telegram_parser_read_d0 ::
  "grammar \<Rightarrow> session option \<Rightarrow> (int \<times> session option) option" where
  "telegram_parser_read_d0 G objp =
     (case objp of
        None \<Rightarrow> Some (- 1, None)
      | Some obj \<Rightarrow>
          if fd obj \<le> 0 then Some (- 2, objp)
          else
            (case buffer obj of
               None \<Rightarrow> None
             | Some b \<Rightarrow>
                 if terminal obj \<and> mode obj \<noteq> 0x50 then
                   (case handshake b obj of
                      Inl (r, obj') \<Rightarrow> Some (r, Some obj')
                    | Inr (obj', b', idx) \<Rightarrow>
                        (case read_body G b' idx obj' of (r, obj'') \<Rightarrow> Some (r, Some obj'')))
                 else
                   (case read_body G b 0 obj of (r, obj') \<Rightarrow> Some (r, Some obj'))))"

section \<open>Notions used in the statements\<close>

text \<open>
  A meter identification string as the D0 handshake expects it: it starts with
  \<^verbatim>\<open>/\<close>, ends with \<^verbatim>\<open>\r\n\<close>, has no earlier \<^verbatim>\<open>\n\<close>, and reaches at least to
  byte 4, the baud rate and mode identifier.
\<close>

definition ident_string :: "byte list \<Rightarrow> bool" where
  "ident_string s \<longleftrightarrow>
     7 \<le> length s \<and> s ! 0 = ch_slash \<and> s ! (length s - 2) = ch_cr \<and>
     s ! (length s - 1) = ch_lf \<and> ch_lf \<notin> set (take (length s - 2) (tl s))"

text \<open>
  \<open>runs_on obj o'\<close>: the session \<open>o'\<close> has only added to what \<open>obj\<close> had written, and
  is still one on which the next D0 read starts with the handshake.
\<close>

definition runs_on :: "session \<Rightarrow> session \<Rightarrow> bool" where
  "runs_on obj o' \<longleftrightarrow>
     (\<exists>tail. tx (dev o') = tx (dev obj) @ tail) \<and> mode o' \<noteq> 0x50 \<and>
     terminal o' = terminal obj \<and> fd o' = fd obj \<and> wr (dev o') = [] \<and> buffer o' \<noteq> None"

text \<open>
  \<open>frame_shape n buf r\<close>: a framer result \<open>r\<close> for a buffer of size \<open>n\<close> that
  started from the storage \<open>buf\<close>. A returned telegram starts with \<^verbatim>\<open>/\<close>, has its
  \<^verbatim>\<open>!\<close> three or seven bytes before its end and is at most \<open>n + 6\<close> bytes long, and
  the storage from index \<open>n + 6\<close> on is as it was.
\<close>

definition frame_shape :: "nat \<Rightarrow> mem \<Rightarrow> framed \<Rightarrow> bool" where
  "frame_shape n buf r \<longleftrightarrow>
     (rt_len r \<noteq> 0 \<longrightarrow>
        rt_buf r 0 = ch_slash \<and> 3 \<le> rt_len r \<and> rt_len r \<le> n + 6 \<and>
        (rt_buf r (rt_len r - 3) = ch_bang \<or> rt_buf r (rt_len r - 7) = ch_bang)) \<and>
     (\<forall>j \<ge> n + 6. rt_buf r j = buf j)"

section \<open>Sample sessions\<close>

text \<open>
  Concrete inputs on which the theorems below are instantiated: storage filled
  with zeros or holding given bytes, a grammar that reports a fixed CRC field and
  status, a serial line and a plain file with given bytes to come, an operating
  system that opens one device, and sessions as the two open functions leave them.
\<close>

definition zero_mem :: mem where
  "zero_mem = (\<lambda>_. 0)"

definition bytes_mem :: "byte list \<Rightarrow> mem" where
  "bytes_mem xs = (\<lambda>i. if i < length xs then xs ! i else 0)"

definition stub_grammar :: "16 word \<Rightarrow> int \<Rightarrow> grammar" where
  "stub_grammar c st =
     \<lparr>parser_init = (\<lambda>p. p\<lparr>parse_errors := 0\<rparr>), parser_run = (\<lambda>p bs. (p\<lparr>crc16 := c\<rparr>, st))\<rparr>"

definition tio0 :: termios where
  "tio0 = \<lparr>ispeed = B0, ospeed = B0, csize = 5, parenb = False, vtime = 0\<rparr>"

definition tty_dev :: "termios \<Rightarrow> rd list \<Rightarrow> device" where
  "tty_dev t inp = \<lparr>rx = inp, wr = [], tx = [], tty = True, line = t\<rparr>"

definition file_dev :: "rd list \<Rightarrow> device" where
  "file_dev inp = \<lparr>rx = inp, wr = [], tx = [], tty = False, line = tio0\<rparr>"

definition blank :: session where
  "blank = \<lparr>parser = \<lparr>crc16 = 0, parse_errors = 0\<rparr>, status = 0, buffer = None, bufsize = 0,
            len = 0, fd = 0, terminal = False, timeout = 0, oldtio = tio0, newtio = tio0,
            dumpfile = None, mode = 0, dev = file_dev []\<rparr>"

definition one_device :: "device \<Rightarrow> os" where
  "one_device d =
     \<lparr>READ_TIMEOUT = 10, PARSER_BUFLEN = 4096, sys_open = (\<lambda>path. (3, d)),
      sys_fopen = (\<lambda>path. True), sys_malloc = (\<lambda>n. Some zero_mem)\<rparr>"

definition p1_session :: "rd list \<Rightarrow> session" where
  "p1_session inp =
     blank\<lparr>buffer := Some zero_mem, bufsize := 64, fd := 3, terminal := True,
           newtio := set_cflag B115200 8 False tio0, mode := 0x50,
           dev := tty_dev (set_cflag B115200 8 False tio0) inp\<rparr>"

definition d0_session :: "rd list \<Rightarrow> session" where
  "d0_session inp =
     blank\<lparr>buffer := Some zero_mem, bufsize := 64, fd := 3, terminal := True,
           newtio := set_cflag B300 7 True tio0, mode := 0,
           dev := tty_dev (set_cflag B300 7 True tio0) inp\<rparr>"

definition d0_file_session :: "rd list \<Rightarrow> session" where
  "d0_file_session inp =
     blank\<lparr>buffer := Some zero_mem, bufsize := 64, fd := 3, dev := file_dev inp\<rparr>"

text \<open>The session a call leaves behind, if the call has a result.\<close>

definition left_d0 :: "(int \<times> session option) option \<Rightarrow> session option" where
  "left_d0 res = (case res of None \<Rightarrow> None | Some (r, objp) \<Rightarrow> objp)"

text \<open>
  \<^verbatim>\<open>/abcd!\r\n\<close>, an old-style telegram; \<^verbatim>\<open>/a!1234\r\n\<close>, a new-style one;
  \<^verbatim>\<open>/a!xyz!\r\n\<close>, which the framer also returns as a new-style one;
  \<^verbatim>\<open>/aaaaaa!\r\n\<close>, whose \<^verbatim>\<open>!\<close> is the eighth byte; \<^verbatim>\<open>/a!0000\r\n\<close> and
  \<^verbatim>\<open>/a!41D8\r\n\<close>, of which the second carries its CRC-16/ARC; the identification strings
  \<^verbatim>\<open>/XXX5\r\n\<close> and \<^verbatim>\<open>/XXX5\2\r\n\<close>.
\<close>

definition old_telegram :: "byte list" where
  "old_telegram = [0x2F, 0x61, 0x62, 0x63, 0x64, 0x21, 0x0D, 0x0A]"

definition new_telegram :: "byte list" where
  "new_telegram = [0x2F, 0x61, 0x21, 0x31, 0x32, 0x33, 0x34, 0x0D, 0x0A]"

definition odd_telegram :: "byte list" where
  "odd_telegram = [0x2F, 0x61, 0x21, 0x78, 0x79, 0x7A, 0x21, 0x0D, 0x0A]"

definition tight_telegram :: "byte list" where
  "tight_telegram = [0x2F, 0x61, 0x61, 0x61, 0x61, 0x61, 0x61, 0x21, 0x0D, 0x0A]"

definition zero_crc_telegram :: "byte list" where
  "zero_crc_telegram = [0x2F, 0x61, 0x21, 0x30, 0x30, 0x30, 0x30, 0x0D, 0x0A]"

definition right_crc_telegram :: "byte list" where
  "right_crc_telegram = [0x2F, 0x61, 0x21, 0x34, 0x31, 0x44, 0x38, 0x0D, 0x0A]"

definition ident_c :: "byte list" where
  "ident_c = [0x2F, 0x58, 0x58, 0x58, 0x35, 0x0D, 0x0A]"

definition ident_hdlc :: "byte list" where
  "ident_hdlc = [0x2F, 0x58, 0x58, 0x58, 0x35, 0x5C, 0x32, 0x0D, 0x0A]"

section \<open>What the pieces leave unchanged\<close>

lemma baud_probe_keeps:
  "parser (baud_probe obj) = parser obj" "len (baud_probe obj) = len obj"
  "status (baud_probe obj) = status obj" "buffer (baud_probe obj) = buffer obj"
  "bufsize (baud_probe obj) = bufsize obj" "fd (baud_probe obj) = fd obj"
  "terminal (baud_probe obj) = terminal obj" "mode (baud_probe obj) = mode obj"
  "rx (dev (baud_probe obj)) = rx (dev obj)" "tty (dev (baud_probe obj)) = tty (dev obj)"
  by (simp_all add: baud_probe_def Let_def tcsetattr_def)

lemma dump_errors_keeps:
  "parser (dump_errors b obj) = parser obj" "len (dump_errors b obj) = len obj"
  "status (dump_errors b obj) = status obj" "buffer (dump_errors b obj) = buffer obj"
  "bufsize (dump_errors b obj) = bufsize obj" "fd (dump_errors b obj) = fd obj"
  "terminal (dump_errors b obj) = terminal obj" "mode (dump_errors b obj) = mode obj"
  "dev (dump_errors b obj) = dev obj" "newtio (dump_errors b obj) = newtio obj"
  by (simp_all add: dump_errors_def split: option.splits)

lemma run_parser_keeps:
  "len (run_parser G b obj) = len obj"
  "buffer (run_parser G b obj) = buffer obj"
  "bufsize (run_parser G b obj) = bufsize obj" "fd (run_parser G b obj) = fd obj"
  "terminal (run_parser G b obj) = terminal obj" "mode (run_parser G b obj) = mode obj"
  "dev (run_parser G b obj) = dev obj" "newtio (run_parser G b obj) = newtio obj"
  by (simp_all add: run_parser_def split: prod.splits)

lemma frame_and_parse_keeps:
  assumes "frame_and_parse G b obj = (b', obj2)"
  shows "b' = rt_buf (read_telegram (rx (dev obj)) b (bufsize obj) (bufsize obj))"
    and "len obj2 = rt_len (read_telegram (rx (dev obj)) b (bufsize obj) (bufsize obj))"
    and "buffer obj2 = Some b'" and "bufsize obj2 = bufsize obj" and "fd obj2 = fd obj"
    and "terminal obj2 = terminal obj" and "mode obj2 = mode obj" and "newtio obj2 = newtio obj"
    and "dev obj2 = (dev obj)\<lparr>rx := rt_inp (read_telegram (rx (dev obj)) b (bufsize obj) (bufsize obj))\<rparr>"
    and "len obj2 = 0 \<Longrightarrow> crc16 (parser obj2) = 0"
  using assms
  by (auto simp: frame_and_parse_def Let_def dump_errors_keeps run_parser_keeps split: if_splits)

lemma baud_probe_toggle:
  assumes "terminal obj" and "tty (dev obj)" and "mode obj = 0x50" and "len obj = 0"
  shows "newtio (baud_probe obj) =
           cfsetispeed (newtio obj) (if ispeed (newtio obj) = B115200 then B9600 else B115200)"
    and "line (dev (baud_probe obj)) = newtio (baud_probe obj)"
  using assms
  by (simp_all add: baud_probe_def Let_def tcsetattr_def cfgetispeed_def)

lemma write_dev_ok:
  "wr d = [] \<Longrightarrow> write_dev d bs = (int (length bs), d\<lparr>tx := tx d @ bs\<rparr>)"
  by (simp add: write_dev_def)

lemma write_dev_keeps:
  "tty (snd (write_dev d bs)) = tty d" "line (snd (write_dev d bs)) = line d"
  "rx (snd (write_dev d bs)) = rx d"
  by (simp_all add: write_dev_def split: list.splits)

lemma wakeup_ok: "wr d = [] \<Longrightarrow> wakeup k d = d\<lparr>tx := tx d @ replicate k 0\<rparr>"
proof (induction k arbitrary: d)
  case 0
  then show ?case by simp
next
  case (Suc k)
  have "wakeup k (d\<lparr>tx := tx d @ [0]\<rparr>) = d\<lparr>tx := tx d @ [0]\<rparr>\<lparr>tx := tx (d\<lparr>tx := tx d @ [0]\<rparr>) @ replicate k 0\<rparr>"
    using Suc.prems by (intro Suc.IH) simp
  then show ?case
    using Suc.prems by (simp add: write_dev_ok replicate_app_Cons_same)
qed

lemma change_baud_keeps:
  "buffer (change_baud r obj) = buffer obj" "bufsize (change_baud r obj) = bufsize obj"
  "fd (change_baud r obj) = fd obj" "terminal (change_baud r obj) = terminal obj"
  "mode (change_baud r obj) = mode obj" "rx (dev (change_baud r obj)) = rx (dev obj)"
  "wr (dev (change_baud r obj)) = wr (dev obj)" "tx (dev (change_baud r obj)) = tx (dev obj)"
  "tty (dev (change_baud r obj)) = tty (dev obj)"
  by (simp_all add: change_baud_def Let_def tcsetattr_def)

lemma change_baud_line:
  "tty (dev obj) \<Longrightarrow> mode obj \<noteq> 0x41 \<Longrightarrow>
     line (dev (change_baud r obj)) = cfsetspeed (newtio obj) r"
  by (simp add: change_baud_def Let_def tcsetattr_def)

lemma read_body_keeps:
  assumes "read_body G b idx obj = (r, obj')"
  shows "mode obj' = mode obj" and "terminal obj' = terminal obj" and "fd obj' = fd obj"
    and "bufsize obj' = bufsize obj" and "newtio obj' = newtio obj"
    and "line (dev obj') = line (dev obj)" and "tty (dev obj') = tty (dev obj)"
    and "buffer obj \<noteq> None \<Longrightarrow> buffer obj' \<noteq> None"
    and "wr (dev obj) = [] \<Longrightarrow> wr (dev obj') = []"
    and "wr (dev obj) = [] \<Longrightarrow> \<exists>tail. tx (dev obj') = tx (dev obj) @ tail"
  using assms
  by (auto simp: read_body_def Let_def dump_errors_keeps run_parser_keeps write_dev_ok write_dev_keeps
           split: if_splits prod.splits)

section \<open>The framer\<close>

text \<open>
  C1 (framer safety). The claim: for every byte stream and every \<^verbatim>\<open>bufsize \<ge> 8\<close>,
  \<^verbatim>\<open>read_telegram\<close> never writes to a buffer index \<^verbatim>\<open>\<ge> bufsize\<close>, and a returned
  non-zero length \<open>len\<close> has \<^verbatim>\<open>buf[0] == '/'\<close> and \<^verbatim>\<open>!\<close> at \<open>len - 3\<close> or \<open>len - 7\<close>.
  The source guards the store of a content byte by \<^verbatim>\<open>offset < bufsize\<close>, but the
  two to six reads behind a \<^verbatim>\<open>!\<close> go to \<^verbatim>\<open>buf + offset\<close> and beyond without that
  guard. With \<^verbatim>\<open>bufsize = 8\<close>, storage that is all zero and the stream
  \<^verbatim>\<open>/aaaaaa!\r\n\<close>, the \<^verbatim>\<open>!\<close> goes to index 7, the two bytes behind it go to the
  indices 8 and 9, and the length 10 is returned.
\<close>

theorem read_telegram_stores_behind_buffer:
  "rt_len (read_telegram (map Byte tight_telegram) zero_mem 8 8) = 10 \<and>
   zero_mem 8 = 0 \<and> zero_mem 9 = 0 \<and>
   rt_buf (read_telegram (map Byte tight_telegram) zero_mem 8 8) 8 = ch_cr \<and>
   rt_buf (read_telegram (map Byte tight_telegram) zero_mem 8 8) 9 = ch_lf"
  by code_simp

text \<open>
  What does hold of the framer's stores and of the frames it returns: nothing is
  stored from index \<open>bufsize + 6\<close> on, and a returned frame starts with \<^verbatim>\<open>/\<close> and
  has its \<^verbatim>\<open>!\<close> three or seven bytes before its end.
\<close>

lemma read_buf_other: "read_buf buf i inp = (l, buf', inp') \<Longrightarrow> j \<noteq> i \<Longrightarrow> buf' j = buf j"
  by (cases "(buf, i, inp)" rule: read_buf.cases) auto

lemma read2_other:
  "read2 buf i inp = (l, buf', inp') \<Longrightarrow> j < i \<or> i + 2 \<le> j \<Longrightarrow> buf' j = buf j"
  unfolding read2_def
  by (auto split: prod.splits dest!: read_buf_other [where j = j])

lemma read4_other:
  "read4 buf i inp = (l, buf', inp') \<Longrightarrow> j < i \<or> i + 4 \<le> j \<Longrightarrow> buf' j = buf j"
  unfolding read4_def
  by (auto split: prod.splits dest!: read_buf_other [where j = j])

lemma trailer_frame:
  assumes "trailer buf off failed inp = Inl (k, buf', inp')"
  shows "(k = off + 2 \<or> k = off + 6) \<and> (\<forall>j. j < off \<or> off + 6 \<le> j \<longrightarrow> buf' j = buf j)"
proof -
  obtain l2 b2 i2 where r2: "read2 buf off inp = (l2, b2, i2)"
    using prod_cases3 by blast
  obtain l4 b4 i4 where r4: "read4 b2 (off + 2) i2 = (l4, b4, i4)"
    using prod_cases3 by blast
  have o2: "j < off \<or> off + 2 \<le> j \<Longrightarrow> b2 j = buf j" for j
    using read2_other [OF r2] by blast
  have o4: "j < off + 2 \<or> off + 6 \<le> j \<Longrightarrow> b4 j = b2 j" for j
    using read4_other [OF r4, of j] by auto
  have o24: "j < off \<or> off + 6 \<le> j \<Longrightarrow> b4 j = buf j" for j
    using o2 [of j] o4 [of j] by auto
  from assms r2 r4 have "(k = off + 2 \<and> buf' = b2) \<or> (k = off + 6 \<and> buf' = b4)"
    by (auto simp: trailer_def split: if_splits)
  then show ?thesis
    using o2 o24 by auto
qed

lemma trailer_restart:
  assumes "trailer buf off failed inp = Inr (l, f, buf', inp')"
  shows "\<forall>j. j < off \<or> off + 6 \<le> j \<longrightarrow> buf' j = buf j"
proof -
  obtain l2 b2 i2 where r2: "read2 buf off inp = (l2, b2, i2)"
    using prod_cases3 by blast
  obtain l4 b4 i4 where r4: "read4 b2 (off + 2) i2 = (l4, b4, i4)"
    using prod_cases3 by blast
  have o2: "j < off \<or> off + 2 \<le> j \<Longrightarrow> b2 j = buf j" for j
    using read2_other [OF r2] by blast
  have o4: "j < off + 2 \<or> off + 6 \<le> j \<Longrightarrow> b4 j = b2 j" for j
    using read4_other [OF r4, of j] by auto
  have o24: "j < off \<or> off + 6 \<le> j \<Longrightarrow> b4 j = buf j" for j
    using o2 [of j] o4 [of j] by auto
  from assms r2 r4 have "buf' = b2 \<or> buf' = b4"
    by (auto simp: trailer_def split: if_splits)
  then show ?thesis
    using o2 o24 by auto
qed

lemma frame_shape_from:
  "frame_shape n b' r \<Longrightarrow> \<forall>j \<ge> n + 6. b' j = buf j \<Longrightarrow> frame_shape n buf r"
  by (simp add: frame_shape_def)

lemma frame_shape_none:
  "\<forall>j \<ge> n + 6. b' j = buf j \<Longrightarrow>
     frame_shape n buf \<lparr>rt_len = 0, rt_buf = b', rt_inp = rs, rt_failed = f\<rparr>"
  by (simp add: frame_shape_def)

lemma rt_loop_frame:
  "(if telegram then 1 \<le> offset \<and> buf 0 = ch_slash else offset = 0) \<Longrightarrow>
     frame_shape n buf (rt_loop n M telegram offset failed buf inp)"
proof (induction n M telegram offset failed buf inp rule: rt_loop.induct)
  case (4 n M telegram offset failed buf byte rs)
  note inv = \<open>if telegram then 1 \<le> offset \<and> buf 0 = ch_slash else offset = 0\<close>
  show ?case
  proof (cases "\<not> telegram \<and> byte = ch_slash")
    case True
    have same: "\<forall>j \<ge> n + 6. (buf(offset := byte)) j = buf j"
      using True inv by simp
    show ?thesis
    proof (cases "again M 1 failed")
      case ag: True
      have "frame_shape n (buf(offset := byte)) (rt_loop n M True (offset + 1) failed (buf(offset := byte)) rs)"
        using True inv by (intro 4(1) [OF True ag]) simp
      from frame_shape_from [OF this same] show ?thesis
        using True ag by simp
    next
      case False
      have "frame_shape n buf \<lparr>rt_len = 0, rt_buf = buf(offset := byte), rt_inp = rs, rt_failed = failed\<rparr>"
        by (rule frame_shape_none [OF same])
      then show ?thesis
        using True False by simp
    qed
  next
    case nostart: False
    show ?thesis
    proof (cases "telegram \<and> offset < n")
      case content: True
      have same: "\<forall>j \<ge> n + 6. (buf(offset := byte)) j = buf j"
        using content by simp
      have slash: "1 \<le> offset" "buf 0 = ch_slash"
        using content inv by simp_all
      show ?thesis
      proof (cases "byte = ch_bang")
        case bang: True
        show ?thesis
        proof (cases "trailer (buf(offset := byte)) (offset + 1) failed rs")
          case (Inl a)
          obtain k b' rs' where a: "a = (k, b', rs')"
            by (cases a) auto
          from trailer_frame [OF Inl [unfolded a]]
          have k: "k = offset + 1 + 2 \<or> k = offset + 1 + 6"
            and keep: "\<forall>j. j < offset + 1 \<or> offset + 1 + 6 \<le> j \<longrightarrow> b' j = (buf(offset := byte)) j"
            by simp_all
          have "b' 0 = ch_slash" and "b' offset = ch_bang" and "\<forall>j \<ge> n + 6. b' j = buf j"
            using keep slash bang content by simp_all
          moreover have "k - 3 = offset \<or> k - 7 = offset"
            using k by auto
          moreover have "3 \<le> k" "k \<le> n + 6"
            using k content by auto
          ultimately have "frame_shape n buf \<lparr>rt_len = k, rt_buf = b', rt_inp = rs', rt_failed = failed\<rparr>"
            by (auto simp: frame_shape_def)
          then show ?thesis
            using nostart content bang Inl a by simp
        next
          case (Inr c)
          then obtain l f' b' rs' where c: "c = (l, f', b', rs')"
            by (cases c) auto
          from trailer_restart [OF Inr [unfolded c]] content
          have keep: "\<forall>j \<ge> n + 6. b' j = buf j"
            by simp
          show ?thesis
          proof (cases "again M l f'")
            case True
            have "frame_shape n b' (rt_loop n M False 0 f' b' rs')"
              by (intro 4(2) [OF nostart content bang Inr c [symmetric] refl refl True]) simp
            from frame_shape_from [OF this keep] show ?thesis
              using nostart content bang Inr c True by simp
          next
            case False
            have "frame_shape n buf \<lparr>rt_len = 0, rt_buf = b', rt_inp = rs', rt_failed = f'\<rparr>"
              by (rule frame_shape_none [OF keep])
            then show ?thesis
              using nostart content bang Inr c False by simp
          qed
        qed
      next
        case nobang: False
        show ?thesis
        proof (cases "again M 1 failed")
          case ag: True
          have "frame_shape n (buf(offset := byte))
                  (rt_loop n M telegram (offset + 1) failed (buf(offset := byte)) rs)"
            using content slash by (intro 4(3) [OF nostart content nobang ag]) simp
          from frame_shape_from [OF this same] show ?thesis
            using nostart content nobang ag by auto
        next
          case False
          have "frame_shape n buf \<lparr>rt_len = 0, rt_buf = buf(offset := byte), rt_inp = rs, rt_failed = failed\<rparr>"
            by (rule frame_shape_none [OF same])
          then show ?thesis
            using nostart content nobang False by auto
        qed
      qed
    next
      case nocontent: False
      have same: "\<forall>j \<ge> n + 6. buf j = buf j"
        by simp
      show ?thesis
      proof (cases "n \<le> offset")
        case over: True
        show ?thesis
        proof (cases "again M 1 (failed + offset)")
          case True
          have "frame_shape n buf (rt_loop n M False 0 (failed + offset) buf rs)"
            by (intro 4(4) [OF nostart nocontent over True]) simp
          then show ?thesis
            using nostart nocontent over True by auto
        next
          case False
          have "frame_shape n buf \<lparr>rt_len = 0, rt_buf = buf, rt_inp = rs, rt_failed = failed + offset\<rparr>"
            by (rule frame_shape_none [OF same])
          then show ?thesis
            using nostart nocontent over False by auto
        qed
      next
        case under: False
        show ?thesis
        proof (cases "again M 1 failed")
          case ag: True
          have "frame_shape n buf (rt_loop n M telegram offset failed buf rs)"
            by (intro 4(5) [OF nostart nocontent under ag] inv)
          then show ?thesis
            using nostart nocontent under ag by auto
        next
          case False
          have "frame_shape n buf \<lparr>rt_len = 0, rt_buf = buf, rt_inp = rs, rt_failed = failed\<rparr>"
            by (rule frame_shape_none [OF same])
          then show ?thesis
            using nostart nocontent under False by auto
        qed
      qed
    qed
  qed
qed (simp_all add: frame_shape_def)

lemma returned_frame_shape:
  assumes "rt_len (read_telegram fd' buf n M) \<noteq> 0"
  shows "rt_buf (read_telegram fd' buf n M) 0 = ch_slash \<and>
         (rt_buf (read_telegram fd' buf n M) (rt_len (read_telegram fd' buf n M) - 3) = ch_bang \<or>
          rt_buf (read_telegram fd' buf n M) (rt_len (read_telegram fd' buf n M) - 7) = ch_bang)"
  using rt_loop_frame [of False 0 buf n M 0 fd'] assms
  by (simp add: read_telegram_def frame_shape_def)

lemma stores_stay_below:
  "n + 6 \<le> j \<Longrightarrow> rt_buf (read_telegram fd' buf n M) j = buf j"
  using rt_loop_frame [of False 0 buf n M 0 fd']
  by (simp add: read_telegram_def frame_shape_def)

lemma read_buf_le: "read_buf buf i inp = (l, buf', inp') \<Longrightarrow> l \<le> 1 \<and> - 1 \<le> l"
  by (cases "(buf, i, inp)" rule: read_buf.cases) auto

lemma read2_le: "read2 buf i inp = (l, buf', inp') \<Longrightarrow> l \<le> 2 \<and> - 2 \<le> l"
  unfolding read2_def
  by (fastforce split: prod.splits dest!: read_buf_le)

lemma read4_le: "read4 buf i inp = (l, buf', inp') \<Longrightarrow> l \<le> 4 \<and> - 4 \<le> l"
  unfolding read4_def
  by (fastforce split: prod.splits dest!: read_buf_le)

lemma trailer_failed:
  "trailer buf offset failed inp = Inr (l, failed', buf', inp') \<Longrightarrow> failed' \<le> failed + offset + 6"
  unfolding trailer_def
  by (auto split: prod.splits if_splits dest!: read2_le read4_le)

lemma rt_loop_failed:
  "0 < M \<Longrightarrow> failed < M \<Longrightarrow> (if telegram then offset \<le> n + 1 else offset = 0) \<Longrightarrow>
     rt_failed (rt_loop n M telegram offset failed buf inp) \<le> M + n + 5"
proof (induction n M telegram offset failed buf inp rule: rt_loop.induct)
  case (4 n M telegram offset failed buf byte rs)
  note pos = \<open>0 < M\<close> and below = \<open>failed < M\<close>
    and inv = \<open>if telegram then offset \<le> n + 1 else offset = 0\<close>
  have ag: "again M 1 failed"
    using below by (simp add: again_def)
  let ?goal = "\<lambda>r. rt_failed r \<le> M + n + 5"
  show ?case
  proof (cases "\<not> telegram \<and> byte = ch_slash")
    case True
    have "?goal (rt_loop n M True (offset + 1) failed (buf(offset := byte)) rs)"
      using True inv by (intro 4(1) [OF True ag] pos below) simp
    then show ?thesis
      using True ag by simp
  next
    case nostart: False
    show ?thesis
    proof (cases "telegram \<and> offset < n")
      case content: True
      show ?thesis
      proof (cases "byte = ch_bang")
        case bang: True
        show ?thesis
        proof (cases "trailer (buf(offset := byte)) (offset + 1) failed rs")
          case (Inl a)
          obtain k b' rs' where "a = (k, b', rs')"
            by (cases a) auto
          then show ?thesis
            using nostart content bang Inl below
            by simp
        next
          case (Inr c)
          then obtain l f' b' rs' where c: "c = (l, f', b', rs')"
            by (cases c) auto
          have bound: "f' \<le> failed + (offset + 1) + 6"
            using trailer_failed Inr c by blast
          show ?thesis
          proof (cases "again M l f'")
            case True
            have "?goal (rt_loop n M False 0 f' b' rs')"
              using True pos
              by (intro 4(2) [OF nostart content bang Inr c [symmetric] refl refl True])
                 (auto simp: again_def)
            then show ?thesis
              using nostart content bang Inr c True
              by simp
          next
            case False
            have "?goal \<lparr>rt_len = 0, rt_buf = b', rt_inp = rs', rt_failed = f'\<rparr>"
              using bound below content by simp
            then show ?thesis
              using nostart content bang Inr c False
              by simp
          qed
        qed
      next
        case nobang: False
        have "?goal (rt_loop n M telegram (offset + 1) failed (buf(offset := byte)) rs)"
          using content by (intro 4(3) [OF nostart content nobang ag] pos below) simp
        then show ?thesis
          using nostart content nobang ag by auto
      qed
    next
      case nocontent: False
      show ?thesis
      proof (cases "n \<le> offset")
        case over: True
        show ?thesis
        proof (cases "again M 1 (failed + offset)")
          case True
          have "?goal (rt_loop n M False 0 (failed + offset) buf rs)"
            using True pos by (intro 4(4) [OF nostart nocontent over True]) (auto simp: again_def)
          then show ?thesis
            using nostart nocontent over True by auto
        next
          case False
          have "offset \<le> n + 1"
            using inv by (simp split: if_splits)
          then have "?goal \<lparr>rt_len = 0, rt_buf = buf, rt_inp = rs, rt_failed = failed + offset\<rparr>"
            using below by simp
          then show ?thesis
            using nostart nocontent over False by auto
        qed
      next
        case under: False
        have "?goal (rt_loop n M telegram offset failed buf rs)"
          by (intro 4(5) [OF nostart nocontent under ag] pos below inv)
        then show ?thesis
          using nostart nocontent under ag by auto
      qed
    qed
  qed
qed simp_all

text \<open>
  What the cap does bound is the counter \<^verbatim>\<open>failed\<close>: with a cap \<open>M > 0\<close> it is at
  most \<open>M + bufsize + 5\<close> when the function returns 0, since the loop is left as
  soon as the counter reaches \<open>M\<close> and one abandoned candidate adds at most
  \<open>bufsize + 6\<close>.
\<close>

lemma failed_count_bounded:
  assumes "0 < M"
  shows "rt_failed (read_telegram fd' buf n M) \<le> M + n + 5"
  unfolding read_telegram_def using assms by (intro rt_loop_failed) simp_all

text \<open>
  C6 (recovery bound). The claim: with a cap \<open>M > 0\<close>, when \<^verbatim>\<open>read_telegram\<close>
  returns 0 it has consumed at most \<open>M + bufsize + 7\<close> bytes. The source says the
  same of itself (lines 104-106: zero is returned "if we've read the maximum number
  of non-valid bytes"), and the two places where a candidate is dropped (lines 90
  and 97) add its bytes to \<^verbatim>\<open>failed\<close>. Two kinds of discarded bytes are left out of
  the counter. A byte read while no \<^verbatim>\<open>/\<close> has been seen takes none of the three
  branches of the loop body: a stream of 30 bytes \<^verbatim>\<open>x\<close> is consumed to its end with
  \<open>M = bufsize = 8\<close> and \<^verbatim>\<open>failed\<close> still 0, and 30 is more than \<open>8 + 8 + 7\<close>. The
  byte that finds the buffer full (line 94) is dropped but line 97 adds only
  \<^verbatim>\<open>offset\<close>: of 40 bytes \<^verbatim>\<open>/\<close> with \<open>bufsize = 2\<close> and \<open>M = 20\<close>, 30 are consumed
  when 0 is returned with \<^verbatim>\<open>failed\<close> at 20, and 30 is more than \<open>20 + 2 + 7\<close>.
\<close>

theorem garbage_is_not_counted:
  "rt_len (read_telegram (replicate 30 (Byte 0x78)) zero_mem 8 8) = 0 \<and>
   rt_inp (read_telegram (replicate 30 (Byte 0x78)) zero_mem 8 8) = [] \<and>
   rt_failed (read_telegram (replicate 30 (Byte 0x78)) zero_mem 8 8) = 0 \<and>
   \<not> (30 :: nat) \<le> 8 + 8 + 7 \<and>
   rt_len (read_telegram (replicate 40 (Byte ch_slash)) zero_mem 2 20) = 0 \<and>
   rt_inp (read_telegram (replicate 40 (Byte ch_slash)) zero_mem 2 20) = replicate 10 (Byte ch_slash) \<and>
   rt_failed (read_telegram (replicate 40 (Byte ch_slash)) zero_mem 2 20) = 20 \<and>
   \<not> (40 - 10 :: nat) \<le> 20 + 2 + 7"
  by code_simp

section \<open>\<^verbatim>\<open>crc_telegram\<close>\<close>

text \<open>The test vector of the CRC-16 primitive, on the nine bytes \<^verbatim>\<open>123456789\<close>.\<close>

lemma crc16_arc_check: "crc16_arc [0x31, 0x32, 0x33, 0x34, 0x35, 0x36, 0x37, 0x38, 0x39] = 0xBB3D"
  by code_simp

lemma unat_minus_3: "7 \<le> unat (L :: 32 word) \<Longrightarrow> unat (L - 3) = unat L - 3"
  by (simp add: unat_sub word_le_nat_alt)

lemma unat_minus_6: "7 \<le> unat (L :: 32 word) \<Longrightarrow> unat (L - 6) = unat L - 6"
  by (simp add: unat_sub word_le_nat_alt)

lemma unat_minus_7: "7 \<le> unat (L :: 32 word) \<Longrightarrow> unat (L - 7) = unat L - 7"
  by (simp add: unat_sub word_le_nat_alt)

text \<open>
  C5 (CRC range). The claim: for a telegram of length \<open>L \<ge> 7\<close>, if the byte at
  \<open>L - 3\<close> is \<^verbatim>\<open>!\<close> the result is 0, and if the byte at \<open>L - 7\<close> is \<^verbatim>\<open>!\<close> the result is
  \<^verbatim>\<open>crc16\<close> of the first \<open>L - 6\<close> bytes. The source tests the byte at \<open>L - 3\<close>
  first. The nine bytes \<^verbatim>\<open>/a!xyz!\r\n\<close> have \<^verbatim>\<open>!\<close> at both places: the result is 0,
  while CRC-16/ARC of the first three bytes is \<^verbatim>\<open>0x41D8\<close>.
\<close>

theorem crc_telegram_both_marks:
  "bytes_mem odd_telegram (unat (9 :: 32 word) - 7) = ch_bang \<and>
   crc_telegram crc16_arc (bytes_mem odd_telegram) 9 = 0 \<and>
   crc16_arc (map (bytes_mem odd_telegram) [0 ..< unat (9 :: 32 word) - 6]) = 0x41D8"
  by code_simp

text \<open>
  C5, as the code has it: for a telegram of length \<open>L \<ge> 7\<close>, if the byte at \<open>L - 3\<close>
  is \<^verbatim>\<open>!\<close> the result is 0; if it is not and the byte at \<open>L - 7\<close> is \<^verbatim>\<open>!\<close>, the
  result is \<^verbatim>\<open>crc16\<close> of the first \<open>L - 6\<close> bytes, which are the bytes before the
  \<^verbatim>\<open>!\<close> and the \<^verbatim>\<open>!\<close> itself.
\<close>

theorem crc_telegram_trailer:
  assumes "7 \<le> unat L"
  shows "(data (unat L - 3) = ch_bang \<longrightarrow> crc_telegram crc16fn data L = 0) \<and>
         (data (unat L - 3) \<noteq> ch_bang \<and> data (unat L - 7) = ch_bang \<longrightarrow>
            crc_telegram crc16fn data L = crc16fn (map data [0 ..< unat L - 6]) \<and>
            map data [0 ..< unat L - 6] = map data [0 ..< unat L - 7] @ [ch_bang])"
proof -
  have "unat L - 6 = Suc (unat L - 7)"
    using assms by arith
  then have "[0 ..< unat L - 6] = [0 ..< unat L - 7] @ [unat L - 7]"
    by simp
  then show ?thesis
    using assms by (simp add: crc_telegram_def unat_minus_3 unat_minus_6 unat_minus_7)
qed

text \<open>Both cases at work, on \<^verbatim>\<open>/abcd!\r\n\<close> and on \<^verbatim>\<open>/a!1234\r\n\<close>.\<close>

theorem crc_telegram_trailer_witness:
  "7 \<le> unat (8 :: 32 word) \<and>
   bytes_mem old_telegram (unat (8 :: 32 word) - 3) = ch_bang \<and>
   crc_telegram crc16_arc (bytes_mem old_telegram) 8 = 0 \<and>
   7 \<le> unat (9 :: 32 word) \<and>
   bytes_mem new_telegram (unat (9 :: 32 word) - 3) \<noteq> ch_bang \<and>
   bytes_mem new_telegram (unat (9 :: 32 word) - 7) = ch_bang \<and>
   crc_telegram crc16_arc (bytes_mem new_telegram) 9
     = crc16_arc (map (bytes_mem new_telegram) [0 ..< unat (9 :: 32 word) - 6])"
proof -
  have l8: "7 \<le> unat (8 :: 32 word)" and l9: "7 \<le> unat (9 :: 32 word)"
    by simp_all
  have old: "bytes_mem old_telegram (unat (8 :: 32 word) - 3) = ch_bang"
    by (simp add: bytes_mem_def old_telegram_def)
  have new: "bytes_mem new_telegram (unat (9 :: 32 word) - 3) \<noteq> ch_bang"
    "bytes_mem new_telegram (unat (9 :: 32 word) - 7) = ch_bang"
    by (simp_all add: bytes_mem_def new_telegram_def)
  from crc_telegram_trailer [OF l8, of "bytes_mem old_telegram" crc16_arc]
    crc_telegram_trailer [OF l9, of "bytes_mem new_telegram" crc16_arc] l8 l9 old new
  show ?thesis
    by blast
qed

section \<open>The P1 read\<close>

text \<open>
  C10 (no data is not an error). For a session with an allocated buffer of
  non-zero size and a descriptor above 0, when the framer returns length 0,
  \<^verbatim>\<open>telegram_parser_read\<close> returns 0 and leaves \<^verbatim>\<open>obj->len\<close> at 0.
\<close>

theorem no_data_returns_zero:
  assumes "buffer obj = Some b" and "bufsize obj \<noteq> 0" and "0 < fd obj"
    and "rt_len (read_telegram (rx (dev obj)) b (bufsize obj) (bufsize obj)) = 0"
  shows "\<exists>obj'. telegram_parser_read G crc16fn (Some obj) = (0, Some obj') \<and> len obj' = 0"
proof -
  obtain b' obj2 where fp: "frame_and_parse G b obj = (b', obj2)"
    by fastforce
  from frame_and_parse_keeps(2,10) [OF fp] assms(4)
  have "len obj2 = 0" and "crc16 (parser obj2) = 0"
    by simp_all
  with assms(1-3) fp show ?thesis
    by (simp add: telegram_parser_read_def Let_def baud_probe_keeps)
qed

text \<open>A serial line that delivers two bytes of noise and then nothing.\<close>

theorem no_data_returns_zero_witness:
  "buffer (p1_session [Byte 0x78, Byte 0x79]) = Some zero_mem \<and>
   bufsize (p1_session [Byte 0x78, Byte 0x79]) \<noteq> 0 \<and>
   0 < fd (p1_session [Byte 0x78, Byte 0x79]) \<and>
   rt_len (read_telegram (rx (dev (p1_session [Byte 0x78, Byte 0x79]))) zero_mem
             (bufsize (p1_session [Byte 0x78, Byte 0x79]))
             (bufsize (p1_session [Byte 0x78, Byte 0x79]))) = 0 \<and>
   (\<exists>obj'. telegram_parser_read (stub_grammar 0 0) crc16_arc (Some (p1_session [Byte 0x78, Byte 0x79]))
             = (0, Some obj') \<and> len obj' = 0)"
proof -
  let ?obj = "p1_session [Byte 0x78, Byte 0x79]"
  have h1: "buffer ?obj = Some zero_mem" and h2: "bufsize ?obj \<noteq> 0" and h3: "0 < fd ?obj"
    by (simp_all add: p1_session_def blank_def)
  have h4: "rt_len (read_telegram (rx (dev ?obj)) zero_mem (bufsize ?obj) (bufsize ?obj)) = 0"
    by code_simp
  from no_data_returns_zero [OF h1 h2 h3 h4] h1 h2 h3 h4 show ?thesis
    by blast
qed

text \<open>
  C9 (when a CRC mismatch is reported). For a session with an allocated buffer of
  non-zero size and a descriptor above 0, the call leaves the framed telegram in
  the buffer and its length in \<^verbatim>\<open>obj->len\<close>; if that length is not 0, the parser and
  the status are what the grammar gives on these bytes, started from a parser whose
  CRC field is 0. The call returns -4 exactly when the CRC field that the grammar
  reports is not 0 and differs from the computed value, and returns 0 otherwise; so
  a reported field of 0 never gives an error, whatever the telegram is. The
  computed value is the local \<^verbatim>\<open>crc\<close> of line 222: the result of \<^verbatim>\<open>crc_telegram\<close> on
  the buffered telegram when there is one and the grammar has reached its final
  state (status 1, lines 244-245), and the initial 0 otherwise.
\<close>

theorem crc_mismatch_only:
  assumes "buffer obj = Some b" and "bufsize obj \<noteq> 0" and "0 < fd obj"
  shows "\<exists>r obj'.
           telegram_parser_read G crc16fn (Some obj) = (r, Some obj') \<and>
           buffer obj' = Some (rt_buf (read_telegram (rx (dev obj)) b (bufsize obj) (bufsize obj))) \<and>
           len obj' = rt_len (read_telegram (rx (dev obj)) b (bufsize obj) (bufsize obj)) \<and>
           (parser obj', status obj') =
             (if len obj' \<noteq> 0
              then parser_run G (parser_init G ((parser obj)\<lparr>crc16 := 0\<rparr>))
                     (map (rt_buf (read_telegram (rx (dev obj)) b (bufsize obj) (bufsize obj)))
                        [0 ..< len obj'])
              else ((parser obj)\<lparr>crc16 := 0\<rparr>, status obj)) \<and>
           r = (if crc16 (parser obj') \<noteq> 0 \<and>
                   crc16 (parser obj') \<noteq>
                     (if len obj' \<noteq> 0 \<and> status obj' = 1
                      then crc_telegram crc16fn
                             (rt_buf (read_telegram (rx (dev obj)) b (bufsize obj) (bufsize obj)))
                             (of_nat (len obj'))
                      else 0)
                then - 4 else 0)"
proof -
  define fr where "fr = read_telegram (rx (dev obj)) b (bufsize obj) (bufsize obj)"
  obtain b' obj2 where fp: "frame_and_parse G b obj = (b', obj2)"
    by fastforce
  note k = frame_and_parse_keeps [OF fp, folded fr_def]
  define obj' where "obj' = baud_probe obj2"
  have keep: "buffer obj' = Some (rt_buf fr)" "len obj' = rt_len fr"
    "parser obj' = parser obj2" "status obj' = status obj2"
    using k(1,2,3) by (simp_all add: obj'_def baud_probe_keeps)
  have "(parser obj2, status obj2) =
              (if rt_len fr \<noteq> 0
               then parser_run G (parser_init G ((parser obj)\<lparr>crc16 := 0\<rparr>))
                      (map (rt_buf fr) [0 ..< rt_len fr])
               else ((parser obj)\<lparr>crc16 := 0\<rparr>, status obj))"
    using fp
    by (auto simp: frame_and_parse_def Let_def fr_def dump_errors_keeps run_parser_def
             split: prod.splits)
  then have ps: "(parser obj', status obj') =
              (if len obj' \<noteq> 0
               then parser_run G (parser_init G ((parser obj)\<lparr>crc16 := 0\<rparr>))
                      (map (rt_buf fr) [0 ..< len obj'])
               else ((parser obj)\<lparr>crc16 := 0\<rparr>, status obj))"
    by (simp only: keep)
  define r where "r = (if crc16 (parser obj') \<noteq> 0 \<and>
              crc16 (parser obj') \<noteq>
                (if len obj' \<noteq> 0 \<and> status obj' = 1
                 then crc_telegram crc16fn (rt_buf fr) (of_nat (len obj')) else 0)
           then - 4 else 0 :: int)"
  have call: "telegram_parser_read G crc16fn (Some obj) = (r, Some obj')"
    using assms fp k(1) keep
    by (simp add: telegram_parser_read_def Let_def computed_crc_def obj'_def baud_probe_keeps r_def)
  show ?thesis
    unfolding fr_def [symmetric]
    by (rule exI [of _ r], rule exI [of _ obj'], intro conjI)
       (rule call, rule keep(1), rule keep(2), rule ps, rule r_def)
qed

text \<open>
  The telegram \<^verbatim>\<open>/a!41D8\r\n\<close>, whose CRC is \<^verbatim>\<open>0x41D8\<close>, with a grammar that reaches
  its final state: a reported field of \<^verbatim>\<open>0x1234\<close> gives -4, a reported field of
  \<^verbatim>\<open>0x41D8\<close> gives 0. The telegram \<^verbatim>\<open>/a!0000\r\n\<close>, whose CRC is \<^verbatim>\<open>0x41D8\<close> as
  well, with a reported field of 0: the call returns 0.
\<close>

theorem crc_mismatch_only_witness:
  "buffer (p1_session (map Byte right_crc_telegram)) = Some zero_mem \<and>
   bufsize (p1_session (map Byte right_crc_telegram)) \<noteq> 0 \<and>
   0 < fd (p1_session (map Byte right_crc_telegram)) \<and>
   (\<exists>obj' b'.
      telegram_parser_read (stub_grammar 0x1234 1) crc16_arc
          (Some (p1_session (map Byte right_crc_telegram))) = (- 4, Some obj') \<and>
      buffer obj' = Some b' \<and> len obj' = 9 \<and> status obj' = 1 \<and>
      crc16 (parser obj') = 0x1234 \<and> crc_telegram crc16_arc b' 9 = 0x41D8) \<and>
   (\<exists>obj' b'.
      telegram_parser_read (stub_grammar 0x41D8 1) crc16_arc
          (Some (p1_session (map Byte right_crc_telegram))) = (0, Some obj') \<and>
      buffer obj' = Some b' \<and> len obj' = 9 \<and> status obj' = 1 \<and>
      crc16 (parser obj') = 0x41D8 \<and> crc_telegram crc16_arc b' 9 = 0x41D8) \<and>
   buffer (p1_session (map Byte zero_crc_telegram)) = Some zero_mem \<and>
   bufsize (p1_session (map Byte zero_crc_telegram)) \<noteq> 0 \<and>
   0 < fd (p1_session (map Byte zero_crc_telegram)) \<and>
   (\<exists>obj' b'.
      telegram_parser_read (stub_grammar 0 1) crc16_arc
          (Some (p1_session (map Byte zero_crc_telegram))) = (0, Some obj') \<and>
      buffer obj' = Some b' \<and> len obj' = 9 \<and> status obj' = 1 \<and>
      crc16 (parser obj') = 0 \<and> crc_telegram crc16_arc b' 9 = 0x41D8)"
proof -
  let ?R = "p1_session (map Byte right_crc_telegram)"
  let ?Z = "p1_session (map Byte zero_crc_telegram)"
  let ?fr = "read_telegram (rx (dev ?R)) zero_mem (bufsize ?R) (bufsize ?R)"
  let ?fz = "read_telegram (rx (dev ?Z)) zero_mem (bufsize ?Z) (bufsize ?Z)"
  have hr: "buffer ?R = Some zero_mem" "bufsize ?R \<noteq> 0" "0 < fd ?R"
    and hz: "buffer ?Z = Some zero_mem" "bufsize ?Z \<noteq> 0" "0 < fd ?Z"
    by (simp_all add: p1_session_def blank_def)
  have lr: "rt_len ?fr = 9" and cr: "crc_telegram crc16_arc (rt_buf ?fr) 9 = 0x41D8"
    and lz: "rt_len ?fz = 9" and cz: "crc_telegram crc16_arc (rt_buf ?fz) 9 = 0x41D8"
    by code_simp+
  have wrong: "\<exists>obj' b'.
      telegram_parser_read (stub_grammar 0x1234 1) crc16_arc (Some ?R) = (- 4, Some obj') \<and>
      buffer obj' = Some b' \<and> len obj' = 9 \<and> status obj' = 1 \<and>
      crc16 (parser obj') = 0x1234 \<and> crc_telegram crc16_arc b' 9 = 0x41D8"
  proof -
    from crc_mismatch_only [OF hr, of "stub_grammar 0x1234 1" crc16_arc]
    obtain r obj' where call: "telegram_parser_read (stub_grammar 0x1234 1) crc16_arc (Some ?R) = (r, Some obj')"
      and bf: "buffer obj' = Some (rt_buf ?fr)" and ln: "len obj' = rt_len ?fr"
      and ps: "(parser obj', status obj') =
             (if len obj' \<noteq> 0
              then parser_run (stub_grammar 0x1234 1)
                     (parser_init (stub_grammar 0x1234 1) ((parser ?R)\<lparr>crc16 := 0\<rparr>))
                     (map (rt_buf ?fr) [0 ..< len obj'])
              else ((parser ?R)\<lparr>crc16 := 0\<rparr>, status ?R))"
      and rr: "r = (if crc16 (parser obj') \<noteq> 0 \<and>
                   crc16 (parser obj') \<noteq>
                     (if len obj' \<noteq> 0 \<and> status obj' = 1
                      then crc_telegram crc16_arc (rt_buf ?fr) (of_nat (len obj'))
                      else 0)
                then - 4 else 0)"
      by blast
    have f: "crc16 (parser obj') = 0x1234" "status obj' = 1"
      using ps ln lr by (simp_all add: stub_grammar_def)
    have "r = - 4"
      using rr f ln lr cr by simp
    with call bf ln lr f cr show ?thesis
      by simp
  qed
  have right: "\<exists>obj' b'.
      telegram_parser_read (stub_grammar 0x41D8 1) crc16_arc (Some ?R) = (0, Some obj') \<and>
      buffer obj' = Some b' \<and> len obj' = 9 \<and> status obj' = 1 \<and>
      crc16 (parser obj') = 0x41D8 \<and> crc_telegram crc16_arc b' 9 = 0x41D8"
  proof -
    from crc_mismatch_only [OF hr, of "stub_grammar 0x41D8 1" crc16_arc]
    obtain r obj' where call: "telegram_parser_read (stub_grammar 0x41D8 1) crc16_arc (Some ?R) = (r, Some obj')"
      and bf: "buffer obj' = Some (rt_buf ?fr)" and ln: "len obj' = rt_len ?fr"
      and ps: "(parser obj', status obj') =
             (if len obj' \<noteq> 0
              then parser_run (stub_grammar 0x41D8 1)
                     (parser_init (stub_grammar 0x41D8 1) ((parser ?R)\<lparr>crc16 := 0\<rparr>))
                     (map (rt_buf ?fr) [0 ..< len obj'])
              else ((parser ?R)\<lparr>crc16 := 0\<rparr>, status ?R))"
      and rr: "r = (if crc16 (parser obj') \<noteq> 0 \<and>
                   crc16 (parser obj') \<noteq>
                     (if len obj' \<noteq> 0 \<and> status obj' = 1
                      then crc_telegram crc16_arc (rt_buf ?fr) (of_nat (len obj'))
                      else 0)
                then - 4 else 0)"
      by blast
    have f: "crc16 (parser obj') = 0x41D8" "status obj' = 1"
      using ps ln lr by (simp_all add: stub_grammar_def)
    have "r = 0"
      using rr f ln lr cr by simp
    with call bf ln lr f cr show ?thesis
      by simp
  qed
  have zero: "\<exists>obj' b'.
      telegram_parser_read (stub_grammar 0 1) crc16_arc (Some ?Z) = (0, Some obj') \<and>
      buffer obj' = Some b' \<and> len obj' = 9 \<and> status obj' = 1 \<and>
      crc16 (parser obj') = 0 \<and> crc_telegram crc16_arc b' 9 = 0x41D8"
  proof -
    from crc_mismatch_only [OF hz, of "stub_grammar 0 1" crc16_arc]
    obtain r obj' where call: "telegram_parser_read (stub_grammar 0 1) crc16_arc (Some ?Z) = (r, Some obj')"
      and bf: "buffer obj' = Some (rt_buf ?fz)" and ln: "len obj' = rt_len ?fz"
      and ps: "(parser obj', status obj') =
             (if len obj' \<noteq> 0
              then parser_run (stub_grammar 0 1)
                     (parser_init (stub_grammar 0 1) ((parser ?Z)\<lparr>crc16 := 0\<rparr>))
                     (map (rt_buf ?fz) [0 ..< len obj'])
              else ((parser ?Z)\<lparr>crc16 := 0\<rparr>, status ?Z))"
      and rr: "r = (if crc16 (parser obj') \<noteq> 0 \<and>
                   crc16 (parser obj') \<noteq>
                     (if len obj' \<noteq> 0 \<and> status obj' = 1
                      then crc_telegram crc16_arc (rt_buf ?fz) (of_nat (len obj'))
                      else 0)
                then - 4 else 0)"
      by blast
    have f: "crc16 (parser obj') = 0" "status obj' = 1"
      using ps ln lz by (simp_all add: stub_grammar_def)
    have "r = 0"
      using rr f by simp
    with call bf ln lz f cz show ?thesis
      by simp
  qed
  from hr hz wrong right zero show ?thesis
    by (intro conjI)
qed

text \<open>
  The other side of the computed value: when the grammar has not reached its final
  state, nothing is computed and the field is compared with 0, so the field
  \<^verbatim>\<open>0x41D8\<close> of \<^verbatim>\<open>/a!41D8\r\n\<close> gives -4 although it is the CRC of that telegram.
\<close>

lemma unparsed_right_crc_is_refused:
  "map_option (\<lambda>obj. (status obj, crc16 (parser obj), len obj))
     (snd (telegram_parser_read (stub_grammar 0x41D8 0) crc16_arc
             (Some (p1_session (map Byte right_crc_telegram))))) = Some (0, 0x41D8, 9) \<and>
   crc_telegram crc16_arc (bytes_mem right_crc_telegram) 9 = 0x41D8 \<and>
   fst (telegram_parser_read (stub_grammar 0x41D8 0) crc16_arc
          (Some (p1_session (map Byte right_crc_telegram)))) = - 4"
  by code_simp

text \<open>
  C4 (baud probe). The claim: on a terminal in mode \<^verbatim>\<open>'P'\<close> at input rate \<open>b\<close>, two
  consecutive reads that frame nothing leave the port at the rate opposite to \<open>b\<close>.
  Each such read switches the rate, so the second one switches it back: a session
  at 115200 baud with nothing to read is at 9600 after one read and at 115200 after
  two.
\<close>

theorem two_quiet_reads_restore_rate:
  "ispeed (newtio (p1_session [])) = B115200 \<and>
   map_option (\<lambda>obj. (len obj, ispeed (line (dev obj))))
     (snd (telegram_parser_read (stub_grammar 0 0) crc16_arc (Some (p1_session []))))
     = Some (0, B9600) \<and>
   map_option (\<lambda>obj. (len obj, ispeed (line (dev obj))))
     (snd (telegram_parser_read (stub_grammar 0 0) crc16_arc
        (snd (telegram_parser_read (stub_grammar 0 0) crc16_arc (Some (p1_session []))))))
     = Some (0, B115200)"
  by code_simp

text \<open>
  C4, as the code has it: on a terminal in mode \<^verbatim>\<open>'P'\<close> whose working attributes
  have the input rate \<open>b\<close>, 115200 or 9600, a read that frames nothing leaves the
  port at the other of the two rates, and a second such read leaves it at \<open>b\<close> again.
\<close>

theorem baud_toggle_twice:
  assumes valid: "buffer obj = Some b" "bufsize obj \<noteq> 0" "0 < fd obj"
    and onterm: "terminal obj" "tty (dev obj)" "mode obj = 0x50"
    and rate: "ispeed (newtio obj) = B115200 \<or> ispeed (newtio obj) = B9600"
    and quiet1: "rt_len (read_telegram (rx (dev obj)) b (bufsize obj) (bufsize obj)) = 0"
    and quiet2: "rt_len (read_telegram
                   (rt_inp (read_telegram (rx (dev obj)) b (bufsize obj) (bufsize obj)))
                   (rt_buf (read_telegram (rx (dev obj)) b (bufsize obj) (bufsize obj)))
                   (bufsize obj) (bufsize obj)) = 0"
  shows "\<exists>obj1 obj2.
           telegram_parser_read G crc16fn (Some obj) = (0, Some obj1) \<and>
           telegram_parser_read G crc16fn (Some obj1) = (0, Some obj2) \<and>
           ispeed (line (dev obj1)) = (if ispeed (newtio obj) = B115200 then B9600 else B115200) \<and>
           ispeed (line (dev obj2)) = ispeed (newtio obj)"
proof -
  obtain b1 o1 where fp1: "frame_and_parse G b obj = (b1, o1)"
    by fastforce
  note k1 = frame_and_parse_keeps [OF fp1]
  have z1: "len o1 = 0" "crc16 (parser o1) = 0"
    using k1(2,10) quiet1 by simp_all
  define obj1 where "obj1 = baud_probe o1"
  have call1: "telegram_parser_read G crc16fn (Some obj) = (0, Some obj1)"
    using valid fp1 z1 by (simp add: telegram_parser_read_def Let_def baud_probe_keeps obj1_def)
  have t1: "terminal o1" "tty (dev o1)" "mode o1 = 0x50"
    using k1(6,7,9) onterm by simp_all
  have n1: "newtio obj1 =
              cfsetispeed (newtio obj) (if ispeed (newtio obj) = B115200 then B9600 else B115200)"
    and l1: "line (dev obj1) = newtio obj1"
    unfolding obj1_def using baud_probe_toggle [OF t1 z1(1)] k1(8) by simp_all
  have v1: "buffer obj1 = Some b1" "bufsize obj1 = bufsize obj" "0 < fd obj1"
    "terminal obj1" "tty (dev obj1)" "mode obj1 = 0x50" "rx (dev obj1) = rx (dev o1)"
    unfolding obj1_def using k1(3,4,5) valid t1 by (simp_all add: baud_probe_keeps)
  obtain b2 o2 where fp2: "frame_and_parse G b1 obj1 = (b2, o2)"
    by fastforce
  note k2 = frame_and_parse_keeps [OF fp2]
  have "rx (dev obj1) = rt_inp (read_telegram (rx (dev obj)) b (bufsize obj) (bufsize obj))"
    using v1(7) k1(9) by simp
  then have z2: "len o2 = 0" "crc16 (parser o2) = 0"
    using k2(2,10) quiet2 k1(1) v1(2) by simp_all
  define obj2 where "obj2 = baud_probe o2"
  have call2: "telegram_parser_read G crc16fn (Some obj1) = (0, Some obj2)"
    using v1(1,2,3) valid(2) fp2 z2
    by (simp add: telegram_parser_read_def Let_def baud_probe_keeps obj2_def)
  have t2: "terminal o2" "tty (dev o2)" "mode o2 = 0x50"
    using k2(6,7,9) v1(4,5,6) by simp_all
  have "line (dev obj2) =
          cfsetispeed (newtio obj1) (if ispeed (newtio obj1) = B115200 then B9600 else B115200)"
    unfolding obj2_def using baud_probe_toggle [OF t2 z2(1)] k2(8) by simp
  then have "ispeed (line (dev obj2)) = ispeed (newtio obj)"
    using n1 rate by (auto simp: cfsetispeed_def)
  moreover have "ispeed (line (dev obj1)) = (if ispeed (newtio obj) = B115200 then B9600 else B115200)"
    using l1 n1 by (simp add: cfsetispeed_def)
  ultimately show ?thesis
    using call1 call2 by blast
qed

text \<open>A serial line at 115200 baud that delivers nothing.\<close>

theorem baud_toggle_twice_witness:
  "buffer (p1_session []) = Some zero_mem \<and> bufsize (p1_session []) \<noteq> 0 \<and> 0 < fd (p1_session []) \<and>
   terminal (p1_session []) \<and> tty (dev (p1_session [])) \<and> mode (p1_session []) = 0x50 \<and>
   ispeed (newtio (p1_session [])) = B115200 \<and>
   (\<exists>obj1 obj2.
      telegram_parser_read (stub_grammar 0 0) crc16_arc (Some (p1_session [])) = (0, Some obj1) \<and>
      telegram_parser_read (stub_grammar 0 0) crc16_arc (Some obj1) = (0, Some obj2) \<and>
      ispeed (line (dev obj1)) = B9600 \<and> ispeed (line (dev obj2)) = B115200)"
proof -
  let ?obj = "p1_session []"
  have v: "buffer ?obj = Some zero_mem" "bufsize ?obj \<noteq> 0" "0 < fd ?obj"
    and t: "terminal ?obj" "tty (dev ?obj)" "mode ?obj = 0x50"
    and r: "ispeed (newtio ?obj) = B115200"
    by (simp_all add: p1_session_def blank_def tty_dev_def set_cflag_def)
  have q1: "rt_len (read_telegram (rx (dev ?obj)) zero_mem (bufsize ?obj) (bufsize ?obj)) = 0"
    by code_simp
  have q2: "rt_len (read_telegram
              (rt_inp (read_telegram (rx (dev ?obj)) zero_mem (bufsize ?obj) (bufsize ?obj)))
              (rt_buf (read_telegram (rx (dev ?obj)) zero_mem (bufsize ?obj) (bufsize ?obj)))
              (bufsize ?obj) (bufsize ?obj)) = 0"
    by code_simp
  from baud_toggle_twice [OF v t disjI1 [OF r] q1 q2, of "stub_grammar 0 0" crc16_arc] v t r
  show ?thesis
    by simp
qed

section \<open>The D0 read\<close>

text \<open>
  C3 (printable range in the body). The claim: a body byte other than \<^verbatim>\<open>!\<close> aborts
  the read if and only if it is outside \<^verbatim>\<open>[0x20..0x7e]\<close>. The test of line 487 is
  \<^verbatim>\<open>buffer[idx] < 0x20 || buffer[idx] < 0x7e\<close>, under the message "Non-printable
  bytes in telegram": on a plain file the body \<^verbatim>\<open>A!\<close> is refused with -9 at its
  first byte, and the body \<^verbatim>\<open>0x7f !\<close> is accepted with length 2.
\<close>

theorem body_refuses_printable:
  "map_option fst (telegram_parser_read_d0 (stub_grammar 0 0)
      (Some (d0_file_session [Byte 0x41, Byte ch_bang]))) = Some (- 9) \<and>
   map_option fst (telegram_parser_read_d0 (stub_grammar 0 0)
      (Some (d0_file_session [Byte 0x7F, Byte ch_bang]))) = Some 0 \<and>
   map_option len (left_d0 (telegram_parser_read_d0 (stub_grammar 0 0)
      (Some (d0_file_session [Byte 0x7F, Byte ch_bang])))) = Some 2"
  by code_simp

text \<open>
  What the test of line 487 does with a byte that is not \<^verbatim>\<open>!\<close>: below \<^verbatim>\<open>0x7e\<close> the
  read is given up, from \<^verbatim>\<open>0x7e\<close> on the byte is kept.
\<close>

lemma body_loop_below_7e:
  assumes "c \<noteq> ch_bang" and "c < 0x7e"
  shows "body_loop n idx b (Byte c # rs) = (True, False, idx, b(idx := c), rs)"
  using assms by simp

lemma body_loop_from_7e:
  assumes "\<not> c < 0x7e" and "idx + 1 < n"
  shows "body_loop n idx b (Byte c # rs) = body_loop n (idx + 1) (b(idx := c)) rs"
proof -
  have "\<not> c < 0x20"
    using assms(1) by (simp add: word_less_nat_alt)
  moreover have "c \<noteq> ch_bang"
    using assms(1) by auto
  ultimately show ?thesis
    using assms by simp
qed

lemma id_loop_line:
  assumes "ch_lf \<notin> set body" and "idx + length body + 1 < n"
  shows "\<exists>b'. id_loop n idx b (map Byte (body @ [ch_cr, ch_lf]) @ rest)
                  = (idx + length body + 2, b', rest) \<and>
              (\<forall>i \<le> idx. b' i = b i) \<and>
              (\<forall>i < length body + 2. b' (idx + 1 + i) = (body @ [ch_cr, ch_lf]) ! i)"
  using assms
proof (induction body arbitrary: idx b)
  case Nil
  define b2 where "b2 = b(idx + 1 := ch_cr, idx + 2 := ch_lf)"
  have "id_loop n (idx + 1) (b(idx + 1 := ch_cr)) (Byte ch_lf # rest) = (idx + 2, b2, rest)"
    unfolding b2_def by (subst id_loop.simps) simp
  with Nil.prems
  have run: "id_loop n idx b (map Byte ([] @ [ch_cr, ch_lf]) @ rest)
          = (idx + length ([] :: byte list) + 2, b2, rest)"
    by (subst id_loop.simps) simp
  have low: "\<forall>i \<le> idx. b2 i = b i"
    by (simp add: b2_def)
  have new: "\<forall>i < length ([] :: byte list) + 2. b2 (idx + 1 + i) = ([] @ [ch_cr, ch_lf]) ! i"
    by (simp add: b2_def less_Suc_eq numeral_2_eq_2)
  from run low new show ?case
    by blast
next
  case (Cons x xs)
  from Cons.prems have "ch_lf \<notin> set xs" and "Suc idx + length xs + 1 < n"
    by simp_all
  from Cons.IH [OF this, of "b(idx + 1 := x)"]
  obtain b' where run: "id_loop n (Suc idx) (b(idx + 1 := x)) (map Byte (xs @ [ch_cr, ch_lf]) @ rest)
                         = (Suc idx + length xs + 2, b', rest)"
    and low: "\<forall>i \<le> Suc idx. b' i = (b(idx + 1 := x)) i"
    and new: "\<forall>i < length xs + 2. b' (Suc idx + 1 + i) = (xs @ [ch_cr, ch_lf]) ! i"
    by blast
  have "id_loop n idx b (map Byte ((x # xs) @ [ch_cr, ch_lf]) @ rest)
          = (idx + length (x # xs) + 2, b', rest)"
    using Cons.prems run by (subst id_loop.simps) simp
  moreover have "\<forall>i \<le> idx. b' i = b i"
    using low by simp
  moreover have "\<forall>i < length (x # xs) + 2. b' (idx + 1 + i) = ((x # xs) @ [ch_cr, ch_lf]) ! i"
  proof (intro allI impI)
    fix i assume "i < length (x # xs) + 2"
    then show "b' (idx + 1 + i) = ((x # xs) @ [ch_cr, ch_lf]) ! i"
      using low new by (cases i) auto
  qed
  ultimately show ?case
    by blast
qed

lemma ident_stringD:
  assumes "ident_string s"
  shows "\<exists>body. s = ch_slash # body @ [ch_cr, ch_lf] \<and> ch_lf \<notin> set body \<and> 4 \<le> length body"
proof -
  define body where "body = take (length s - 3) (tl s)"
  from assms have len: "7 \<le> length s"
    and ends: "s ! 0 = ch_slash" "s ! (length s - 2) = ch_cr" "s ! (length s - 1) = ch_lf"
    and nolf: "ch_lf \<notin> set (take (length s - 2) (tl s))"
    by (simp_all add: ident_string_def)
  have lb: "length body = length s - 3"
    using len by (simp add: body_def)
  have "s = ch_slash # body @ [ch_cr, ch_lf]"
  proof (rule nth_equalityI)
    show "length s = length (ch_slash # body @ [ch_cr, ch_lf])"
      using len lb by simp
  next
    fix i assume i: "i < length s"
    consider "i = 0" | "0 < i" "i < length s - 2" | "i = length s - 2" | "i = length s - 1"
      using i by linarith
    then show "s ! i = (ch_slash # body @ [ch_cr, ch_lf]) ! i"
    proof cases
      case 1
      then show ?thesis using ends by simp
    next
      case 2
      then obtain j where j: "i = Suc j" "j < length s - 3"
        by (cases i) auto
      then have "body ! j = s ! Suc j"
        using len by (simp add: body_def nth_tl)
      then show ?thesis
        using j lb by (simp add: nth_append)
    next
      case 3
      then have "i = Suc (length body)"
        using len lb by simp
      then show ?thesis
        using 3 ends by (simp add: nth_append)
    next
      case 4
      then have "i = Suc (Suc (length body))"
        using len lb by simp
      then show ?thesis
        using 4 ends by (simp add: nth_append)
    qed
  qed
  moreover have "set body \<subseteq> set (take (length s - 2) (tl s))"
    unfolding body_def by (rule set_take_subset_set_take) simp
  then have "ch_lf \<notin> set body"
    using nolf by blast
  moreover have "4 \<le> length body"
    using lb len by simp
  ultimately show ?thesis
    by blast
qed

lemma handshake_ident:
  assumes wr: "wr (dev obj) = []" and rx: "rx (dev obj) = map Byte s @ rest"
    and s: "ident_string s" and fits: "length s \<le> bufsize obj"
  shows "\<exists>b3. handshake b obj =
            map_sum (\<lambda>ret. ret) (\<lambda>obj3. (obj3, b3, length s - 1))
              (classify b3 (length s - 1)
                 (obj\<lparr>buffer := Some b3,
                      dev := (dev obj)\<lparr>tx := tx (dev obj) @ replicate 65 0 @ signonseq, rx := rest\<rparr>,
                      mode := 0\<rparr>)) \<and>
          (\<forall>i < length s. b3 i = s ! i)"
proof -
  from ident_stringD [OF s] obtain body
    where sb: "s = ch_slash # body @ [ch_cr, ch_lf]" and nolf: "ch_lf \<notin> set body"
    by blast
  have room: "0 + length body + 1 < bufsize obj"
    using fits sb by simp
  from id_loop_line [OF nolf room, of "b(0 := ch_slash)" rest]
  obtain b2 where run: "id_loop (bufsize obj) 0 (b(0 := ch_slash)) (map Byte (body @ [ch_cr, ch_lf]) @ rest)
                          = (length body + 2, b2, rest)"
    and low: "b2 0 = ch_slash"
    and new: "\<forall>i < length body + 2. b2 (0 + 1 + i) = (body @ [ch_cr, ch_lf]) ! i"
    by auto
  have sig: "length signonseq = 5"
    by (simp add: signonseq_def)
  have ls: "length s - 1 = length body + 2"
    using sb by simp
  have hs: "handshake b obj =
          (let b3 = (if length body + 2 < size_pred (bufsize obj) then b2(length body + 2 + 1 := 0) else b2)
           in map_sum (\<lambda>ret. ret) (\<lambda>obj3. (obj3, b3, length body + 2))
                (classify b3 (length body + 2)
                  (obj\<lparr>buffer := Some b3,
                       dev := (dev obj)\<lparr>tx := tx (dev obj) @ replicate 65 0 @ signonseq, rx := rest\<rparr>,
                       mode := 0\<rparr>)))"
    using wr run
    by (simp add: handshake_def wakeup_ok write_dev_ok sig rx sb Let_def)
  show ?thesis
  proof (cases "length body + 2 < size_pred (bufsize obj)")
    case True
    have "\<forall>i < length s. (b2(length body + 2 + 1 := 0)) i = s ! i"
    proof (intro allI impI)
      fix i assume "i < length s"
      then show "(b2(length body + 2 + 1 := 0)) i = s ! i"
        using low new sb by (cases i) auto
    qed
    with True hs ls show ?thesis
      by (intro exI [of _ "b2(length body + 2 + 1 := 0)"]) (simp add: Let_def)
  next
    case False
    have "\<forall>i < length s. b2 i = s ! i"
    proof (intro allI impI)
      fix i assume "i < length s"
      then show "b2 i = s ! i"
        using low new sb by (cases i) auto
    qed
    with False hs ls show ?thesis
      by (intro exI [of _ b2]) (simp add: Let_def)
  qed
qed

text \<open>
  C7 (ACK in mode C). On a terminal session whose mode is not \<^verbatim>\<open>'P'\<close> and whose
  device accepts every write, when the meter answers the sign-on with an
  identification string that fits the buffer, has \<^verbatim>\<open>'5'\<close> as byte 4 and not a
  backslash as byte 5, the call writes the wake-up, the sign-on and then the six
  bytes \<^verbatim>\<open>06 30 35 30 0D 0A\<close>, leaves the port at 9600 baud and the mode at \<^verbatim>\<open>'C'\<close>.
\<close>

theorem ack_mode_c:
  assumes fd: "0 < fd obj" and buf: "buffer obj = Some b"
    and tm: "terminal obj" "tty (dev obj)" and md: "mode obj \<noteq> 0x50"
    and wr: "wr (dev obj) = []"
    and rx: "rx (dev obj) = map Byte s @ rest"
    and s: "ident_string s" and fits: "length s \<le> bufsize obj"
    and b4: "s ! 4 = 0x35" and b5: "s ! 5 \<noteq> ch_backslash"
  shows "\<exists>r obj' tail.
           telegram_parser_read_d0 G (Some obj) = Some (r, Some obj') \<and>
           tx (dev obj') = tx (dev obj) @ replicate 65 0 @ signonseq @ [0x06, 0x30, 0x35, 0x30, 0x0D, 0x0A] @ tail \<and>
           ispeed (line (dev obj')) = B9600 \<and> ospeed (line (dev obj')) = B9600 \<and>
           mode obj' = 0x43"
proof -
  from handshake_ident [OF wr rx s fits, of b] obtain b3
    where hs: "handshake b obj =
            map_sum (\<lambda>ret. ret) (\<lambda>obj3. (obj3, b3, length s - 1))
              (classify b3 (length s - 1)
                 (obj\<lparr>buffer := Some b3,
                      dev := (dev obj)\<lparr>tx := tx (dev obj) @ replicate 65 0 @ signonseq, rx := rest\<rparr>,
                      mode := 0\<rparr>))"
      and vals: "\<forall>i < length s. b3 i = s ! i"
    by blast
  from s have len: "7 \<le> length s" and cr: "s ! (length s - 2) = ch_cr" and lf: "s ! (length s - 1) = ch_lf"
    by (simp_all add: ident_string_def)
  have v: "b3 (length s - 1) = ch_lf" "b3 (length s - 1 - 1) = ch_cr" "b3 4 = 0x35" "b3 5 \<noteq> ch_backslash"
    using vals len cr lf b4 b5 by (simp_all add: numeral_2_eq_2 [symmetric] diff_diff_eq)
  define obj3 where "obj3 = change_baud B9600
     (obj\<lparr>buffer := Some b3, mode := 0x43,
          dev := (dev obj)\<lparr>rx := rest, tx := tx (dev obj) @ replicate 65 0 @ signonseq @ ackseq 0x35\<rparr>\<rparr>)"
  have cl: "handshake b obj = Inr (obj3, b3, length s - 1)"
    unfolding hs obj3_def using v wr
    by (simp add: classify_def ident_switch_def write_dev_ok)
  obtain r obj' where rb: "read_body G b3 (length s - 1) obj3 = (r, obj')"
    by fastforce
  note k = read_body_keeps [OF rb]
  have w3: "wr (dev obj3) = []" and t3: "tx (dev obj3) = tx (dev obj) @ replicate 65 0 @ signonseq @ ackseq 0x35"
    and m3: "mode obj3 = 0x43"
    unfolding obj3_def using wr by (simp_all add: change_baud_keeps)
  have l3: "line (dev obj3) = cfsetspeed (newtio obj) B9600"
    unfolding obj3_def using tm by (subst change_baud_line) simp_all
  from k(10) [OF w3] obtain tail where "tx (dev obj') = tx (dev obj3) @ tail"
    by blast
  then have "tx (dev obj') = tx (dev obj) @ replicate 65 0 @ signonseq @ [0x06, 0x30, 0x35, 0x30, 0x0D, 0x0A] @ tail"
    using t3 by (simp add: ackseq_def)
  moreover have "telegram_parser_read_d0 G (Some obj) = Some (r, Some obj')"
    using fd buf tm md cl rb by (simp add: telegram_parser_read_d0_def)
  moreover have "ispeed (line (dev obj')) = B9600" "ospeed (line (dev obj')) = B9600"
    using k(6) l3 by (simp_all add: cfsetspeed_def)
  moreover have "mode obj' = 0x43"
    using k(1) m3 by simp
  ultimately show ?thesis
    by blast
qed

text \<open>A meter that answers \<^verbatim>\<open>/XXX5\r\n\<close> and then \<^verbatim>\<open>!\<close>.\<close>

theorem ack_mode_c_witness:
  "0 < fd (d0_session (map Byte ident_c @ [Byte ch_bang])) \<and>
   buffer (d0_session (map Byte ident_c @ [Byte ch_bang])) = Some zero_mem \<and>
   terminal (d0_session (map Byte ident_c @ [Byte ch_bang])) \<and>
   tty (dev (d0_session (map Byte ident_c @ [Byte ch_bang]))) \<and>
   mode (d0_session (map Byte ident_c @ [Byte ch_bang])) \<noteq> 0x50 \<and>
   wr (dev (d0_session (map Byte ident_c @ [Byte ch_bang]))) = [] \<and>
   rx (dev (d0_session (map Byte ident_c @ [Byte ch_bang]))) = map Byte ident_c @ [Byte ch_bang] \<and>
   ident_string ident_c \<and>
   length ident_c \<le> bufsize (d0_session (map Byte ident_c @ [Byte ch_bang])) \<and>
   ident_c ! 4 = 0x35 \<and> ident_c ! 5 \<noteq> ch_backslash \<and>
   (\<exists>r obj' tail.
      telegram_parser_read_d0 (stub_grammar 0 0) (Some (d0_session (map Byte ident_c @ [Byte ch_bang])))
        = Some (r, Some obj') \<and>
      tx (dev obj') = tx (dev (d0_session (map Byte ident_c @ [Byte ch_bang]))) @ replicate 65 0 @
                        signonseq @ [0x06, 0x30, 0x35, 0x30, 0x0D, 0x0A] @ tail \<and>
      ispeed (line (dev obj')) = B9600 \<and> ospeed (line (dev obj')) = B9600 \<and> mode obj' = 0x43)"
proof -
  let ?obj = "d0_session (map Byte ident_c @ [Byte ch_bang])"
  have h: "0 < fd ?obj" "buffer ?obj = Some zero_mem" "terminal ?obj" "tty (dev ?obj)"
    "mode ?obj \<noteq> 0x50" "wr (dev ?obj) = []" "rx (dev ?obj) = map Byte ident_c @ [Byte ch_bang]"
    by (simp_all add: d0_session_def blank_def tty_dev_def)
  have s: "ident_string ident_c"
    by (simp add: ident_string_def ident_c_def)
  have f: "length ident_c \<le> bufsize ?obj"
    by (simp add: d0_session_def blank_def ident_c_def)
  have b: "ident_c ! 4 = 0x35" "ident_c ! 5 \<noteq> ch_backslash"
    by (simp_all add: ident_c_def)
  from ack_mode_c [OF h s f b, of "stub_grammar 0 0"] h s f b show ?thesis
    by blast
qed

lemma ident_switch_digit:
  "c \<in> {0x30, 0x31, 0x32, 0x33, 0x34, 0x35, 0x36} \<Longrightarrow> fst (ident_switch c) = 0"
  by (auto simp: ident_switch_def)

text \<open>
  C8 (HDLC sub-mode). Under the same conditions, when byte 4 of the identification
  string is a digit \<^verbatim>\<open>'0'\<close> to \<^verbatim>\<open>'6'\<close>, byte 5 a backslash and byte 6 \<^verbatim>\<open>'2'\<close>, the
  call returns -8; only the wake-up and the sign-on have been written, and what
  follows the identification string is still unread.
\<close>

theorem hdlc_unsupported:
  assumes fd: "0 < fd obj" and buf: "buffer obj = Some b"
    and tm: "terminal obj" and md: "mode obj \<noteq> 0x50"
    and wr: "wr (dev obj) = []"
    and rx: "rx (dev obj) = map Byte s @ rest"
    and s: "ident_string s" and fits: "length s \<le> bufsize obj"
    and b4: "s ! 4 \<in> {0x30, 0x31, 0x32, 0x33, 0x34, 0x35, 0x36}"
    and b5: "s ! 5 = ch_backslash" and b6: "s ! 6 = 0x32"
  shows "\<exists>obj'.
           telegram_parser_read_d0 G (Some obj) = Some (- 8, Some obj') \<and>
           tx (dev obj') = tx (dev obj) @ replicate 65 0 @ signonseq \<and>
           rx (dev obj') = rest"
proof -
  from handshake_ident [OF wr rx s fits, of b] obtain b3
    where hs: "handshake b obj =
            map_sum (\<lambda>ret. ret) (\<lambda>obj3. (obj3, b3, length s - 1))
              (classify b3 (length s - 1)
                 (obj\<lparr>buffer := Some b3,
                      dev := (dev obj)\<lparr>tx := tx (dev obj) @ replicate 65 0 @ signonseq, rx := rest\<rparr>,
                      mode := 0\<rparr>))"
      and vals: "\<forall>i < length s. b3 i = s ! i"
    by blast
  from s have len: "7 \<le> length s" and cr: "s ! (length s - 2) = ch_cr" and lf: "s ! (length s - 1) = ch_lf"
    by (simp_all add: ident_string_def)
  have v: "b3 (length s - 1) = ch_lf" "b3 (length s - 1 - 1) = ch_cr" "b3 5 = ch_backslash" "b3 6 = 0x32"
    using vals len cr lf b5 b6 by (simp_all add: numeral_2_eq_2 [symmetric] diff_diff_eq)
  have "b3 4 = s ! 4"
    using vals len by simp
  then have sw: "fst (ident_switch (b3 4)) = 0"
    using ident_switch_digit [OF b4] by simp
  define obj' where "obj' = obj\<lparr>buffer := Some b3, mode := 0x45,
     dev := (dev obj)\<lparr>rx := rest, tx := tx (dev obj) @ replicate 65 0 @ signonseq\<rparr>\<rparr>"
  have "handshake b obj = Inl (- 8, obj')"
    unfolding hs obj'_def using v sw
    by (cases "ident_switch (b3 4)") (simp add: classify_def)
  then have "telegram_parser_read_d0 G (Some obj) = Some (- 8, Some obj')"
    using fd buf tm md by (simp add: telegram_parser_read_d0_def)
  then show ?thesis
    by (intro exI [of _ obj']) (simp add: obj'_def)
qed

text \<open>A meter that answers \<^verbatim>\<open>/XXX5\\2\r\n\<close>.\<close>

theorem hdlc_unsupported_witness:
  "0 < fd (d0_session (map Byte ident_hdlc @ [Byte ch_bang])) \<and>
   buffer (d0_session (map Byte ident_hdlc @ [Byte ch_bang])) = Some zero_mem \<and>
   terminal (d0_session (map Byte ident_hdlc @ [Byte ch_bang])) \<and>
   mode (d0_session (map Byte ident_hdlc @ [Byte ch_bang])) \<noteq> 0x50 \<and>
   wr (dev (d0_session (map Byte ident_hdlc @ [Byte ch_bang]))) = [] \<and>
   rx (dev (d0_session (map Byte ident_hdlc @ [Byte ch_bang]))) = map Byte ident_hdlc @ [Byte ch_bang] \<and>
   ident_string ident_hdlc \<and>
   length ident_hdlc \<le> bufsize (d0_session (map Byte ident_hdlc @ [Byte ch_bang])) \<and>
   ident_hdlc ! 4 \<in> {0x30, 0x31, 0x32, 0x33, 0x34, 0x35, 0x36} \<and>
   ident_hdlc ! 5 = ch_backslash \<and> ident_hdlc ! 6 = 0x32 \<and>
   (\<exists>obj'.
      telegram_parser_read_d0 (stub_grammar 0 0) (Some (d0_session (map Byte ident_hdlc @ [Byte ch_bang])))
        = Some (- 8, Some obj') \<and>
      tx (dev obj') = tx (dev (d0_session (map Byte ident_hdlc @ [Byte ch_bang]))) @ replicate 65 0 @ signonseq \<and>
      rx (dev obj') = [Byte ch_bang])"
proof -
  let ?obj = "d0_session (map Byte ident_hdlc @ [Byte ch_bang])"
  have h: "0 < fd ?obj" "buffer ?obj = Some zero_mem" "terminal ?obj"
    "mode ?obj \<noteq> 0x50" "wr (dev ?obj) = []" "rx (dev ?obj) = map Byte ident_hdlc @ [Byte ch_bang]"
    by (simp_all add: d0_session_def blank_def tty_dev_def)
  have s: "ident_string ident_hdlc"
    by (simp add: ident_string_def ident_hdlc_def)
  have f: "length ident_hdlc \<le> bufsize ?obj"
    by (simp add: d0_session_def blank_def ident_hdlc_def)
  have b: "ident_hdlc ! 4 \<in> {0x30, 0x31, 0x32, 0x33, 0x34, 0x35, 0x36}"
    "ident_hdlc ! 5 = ch_backslash" "ident_hdlc ! 6 = 0x32"
    by (simp_all add: ident_hdlc_def)
  from hdlc_unsupported [OF h s f b, of "stub_grammar 0 0"] h s f b show ?thesis
    by blast
qed

lemma ident_switch_mode: "fst (ident_switch c) \<in> {0, 0x41, 0x42}"
  by (simp add: ident_switch_def)

lemma classify_runs_on:
  assumes "wr (dev obj) = []"
  shows "case classify b idx obj of Inl (r, o') \<Rightarrow> runs_on obj o' | Inr o' \<Rightarrow> runs_on obj o'"
proof -
  obtain m baudrate where sw: "ident_switch (b 4) = (m, baudrate)"
    by fastforce
  with ident_switch_mode [of "b 4"] have "m \<in> {0, 0x41, 0x42}"
    by simp
  then show ?thesis
    using assms sw
    by (auto simp: classify_def runs_on_def Let_def write_dev_ok change_baud_keeps)
qed

lemma handshake_runs_on:
  assumes wr: "wr (dev obj) = []" and md: "mode obj \<noteq> 0x50"
  shows "case handshake b obj of
           Inl (r, o') \<Rightarrow> runs_on (obj\<lparr>dev := (dev obj)\<lparr>tx := tx (dev obj) @ replicate 65 0 @ signonseq\<rparr>\<rparr>) o'
         | Inr (o', b', idx) \<Rightarrow> runs_on (obj\<lparr>dev := (dev obj)\<lparr>tx := tx (dev obj) @ replicate 65 0 @ signonseq\<rparr>\<rparr>) o'"
proof -
  define d where "d = (dev obj)\<lparr>tx := tx (dev obj) @ replicate 65 0 @ signonseq\<rparr>"
  have w: "write_dev (wakeup 65 (dev obj)) signonseq = (5, d)"
    using wr by (simp add: wakeup_ok write_dev_ok d_def signonseq_def)
  obtain l b1 inp1 where rb: "read_buf b 0 (rx d) = (l, b1, inp1)"
    using prod_cases3 by blast
  obtain idx b2 inp2 where il: "id_loop (bufsize obj) 0 b1 inp1 = (idx, b2, inp2)"
    using prod_cases3 by blast
  define b3 where "b3 = (if idx < size_pred (bufsize obj) then b2(idx + 1 := 0) else b2)"
  define obj1 where "obj1 = obj\<lparr>buffer := Some b1, dev := d\<lparr>rx := inp1\<rparr>\<rparr>"
  define obj2 where "obj2 = obj\<lparr>buffer := Some b3, dev := d\<lparr>rx := inp2\<rparr>, mode := 0\<rparr>"
  have hs: "handshake b obj =
          (if l < 0 then Inl (- 4, obj1)
           else if l = 0 \<or> b1 0 \<noteq> ch_slash then Inl (- 5, obj1)
           else map_sum (\<lambda>ret. ret) (\<lambda>obj3. (obj3, b3, idx)) (classify b3 idx obj2))"
    by (simp add: handshake_def w rb il Let_def b3_def obj1_def obj2_def)
  have r1: "runs_on (obj\<lparr>dev := d\<rparr>) obj1"
    using wr md by (simp add: runs_on_def obj1_def d_def)
  have "wr (dev obj2) = []"
    using wr by (simp add: obj2_def d_def)
  from classify_runs_on [OF this, of b3 idx]
  have r2: "case classify b3 idx obj2 of
              Inl (r, o') \<Rightarrow> runs_on (obj\<lparr>dev := d\<rparr>) o' | Inr o' \<Rightarrow> runs_on (obj\<lparr>dev := d\<rparr>) o'"
    by (auto simp: runs_on_def obj2_def split: sum.splits)
  show ?thesis
    unfolding d_def [symmetric] hs using r1 r2
    by (auto split: sum.splits)
qed

text \<open>
  C2 (handshake on later reads). The claim: once a D0 read has completed the
  handshake and stored a resolved mode, every later D0 read on the session skips
  the handshake. The handshake is entered whenever the session is on a terminal and
  its mode is not \<^verbatim>\<open>'P'\<close>, and no mode that it stores is \<^verbatim>\<open>'P'\<close>. A session opened
  by \<^verbatim>\<open>telegram_parser_open_d0\<close> on a serial line, whose meter answers twice with
  \<^verbatim>\<open>/XXX5\r\n!\<close>: the first read returns 0 with mode \<^verbatim>\<open>'C'\<close>, and the second read
  writes the 65 wake-up bytes, the sign-on, the ACK and the sign-off once more.
\<close>

theorem second_read_signs_on_again:
  "map_option fst (telegram_parser_read_d0 (stub_grammar 0 0)
      (snd (telegram_parser_open_d0
              (one_device (tty_dev tio0 (map Byte (ident_c @ [ch_bang] @ ident_c @ [ch_bang]))))
              (stub_grammar 0 0) (Some blank) (Some ''/dev/ttyUSB0'') 64 0 None)))
     = Some 0 \<and>
   map_option (\<lambda>obj. (mode obj, tx (dev obj)))
     (left_d0 (telegram_parser_read_d0 (stub_grammar 0 0)
        (snd (telegram_parser_open_d0
                (one_device (tty_dev tio0 (map Byte (ident_c @ [ch_bang] @ ident_c @ [ch_bang]))))
                (stub_grammar 0 0) (Some blank) (Some ''/dev/ttyUSB0'') 64 0 None))))
     = Some (0x43, replicate 65 0 @ signonseq @ ackseq 0x35 @ signoffseq) \<and>
   map_option (\<lambda>obj. (mode obj, tx (dev obj)))
     (left_d0 (telegram_parser_read_d0 (stub_grammar 0 0)
        (left_d0 (telegram_parser_read_d0 (stub_grammar 0 0)
           (snd (telegram_parser_open_d0
                   (one_device (tty_dev tio0 (map Byte (ident_c @ [ch_bang] @ ident_c @ [ch_bang]))))
                   (stub_grammar 0 0) (Some blank) (Some ''/dev/ttyUSB0'') 64 0 None))))))
     = Some (0x43, replicate 65 0 @ signonseq @ ackseq 0x35 @ signoffseq @
                   replicate 65 0 @ signonseq @ ackseq 0x35 @ signoffseq)"
  by code_simp

text \<open>
  C2, as the code has it: every D0 read on a terminal session whose mode is not
  \<^verbatim>\<open>'P'\<close> runs the handshake, also after a read that has stored a resolved mode.
  With a device that accepts every write, the call writes the 65 wake-up bytes and
  the sign-on first, and it leaves a session that is again on a terminal with a
  mode other than \<^verbatim>\<open>'P'\<close>, so the same holds for the read after it.
\<close>

theorem handshake_every_read:
  assumes fd: "0 < fd obj" and buf: "buffer obj = Some b"
    and tm: "terminal obj" and md: "mode obj \<noteq> 0x50"
    and wr: "wr (dev obj) = []"
  shows "\<exists>r obj' tail.
           telegram_parser_read_d0 G (Some obj) = Some (r, Some obj') \<and>
           tx (dev obj') = tx (dev obj) @ replicate 65 0 @ signonseq @ tail \<and>
           0 < fd obj' \<and> buffer obj' \<noteq> None \<and> terminal obj' \<and> mode obj' \<noteq> 0x50 \<and>
           wr (dev obj') = []"
proof -
  define pre where "pre = obj\<lparr>dev := (dev obj)\<lparr>tx := tx (dev obj) @ replicate 65 0 @ signonseq\<rparr>\<rparr>"
  note hr = handshake_runs_on [OF wr md, of b, folded pre_def]
  have fin: "runs_on pre o' \<Longrightarrow>
      \<exists>tail. tx (dev o') = tx (dev obj) @ replicate 65 0 @ signonseq @ tail \<and>
        0 < fd o' \<and> buffer o' \<noteq> None \<and> terminal o' \<and> mode o' \<noteq> 0x50 \<and> wr (dev o') = []" for o'
    using fd tm by (auto simp: runs_on_def pre_def)
  show ?thesis
  proof (cases "handshake b obj")
    case (Inl a)
    then obtain r o' where a: "handshake b obj = Inl (r, o')"
      by (cases a) auto
    with hr have "runs_on pre o'"
      by simp
    from fin [OF this] a show ?thesis
      using fd buf tm md by (auto simp: telegram_parser_read_d0_def)
  next
    case (Inr c)
    then obtain o3 b3 idx where c: "handshake b obj = Inr (o3, b3, idx)"
      by (cases c) auto
    with hr have r3: "runs_on pre o3"
      by simp
    obtain r obj' where rb: "read_body G b3 idx o3 = (r, obj')"
      by fastforce
    note k = read_body_keeps [OF rb]
    have w3: "wr (dev o3) = []" and nb: "buffer o3 \<noteq> None"
      using r3 by (simp_all add: runs_on_def)
    from k(10) [OF w3] obtain tail where "tx (dev obj') = tx (dev o3) @ tail"
      by blast
    then have "runs_on pre obj'"
      using r3 k(1,2,3) k(8) [OF nb] k(9) [OF w3] by (auto simp: runs_on_def)
    from fin [OF this] c rb show ?thesis
      using fd buf tm md by (auto simp: telegram_parser_read_d0_def)
  qed
qed

text \<open>A session in which an earlier read has stored mode \<^verbatim>\<open>'C'\<close>.\<close>

theorem handshake_every_read_witness:
  "0 < fd ((d0_session (map Byte ident_c @ [Byte ch_bang]))\<lparr>mode := 0x43\<rparr>) \<and>
   buffer ((d0_session (map Byte ident_c @ [Byte ch_bang]))\<lparr>mode := 0x43\<rparr>) = Some zero_mem \<and>
   terminal ((d0_session (map Byte ident_c @ [Byte ch_bang]))\<lparr>mode := 0x43\<rparr>) \<and>
   mode ((d0_session (map Byte ident_c @ [Byte ch_bang]))\<lparr>mode := 0x43\<rparr>) \<noteq> 0x50 \<and>
   wr (dev ((d0_session (map Byte ident_c @ [Byte ch_bang]))\<lparr>mode := 0x43\<rparr>)) = [] \<and>
   (\<exists>r obj' tail.
      telegram_parser_read_d0 (stub_grammar 0 0) (Some ((d0_session (map Byte ident_c @ [Byte ch_bang]))\<lparr>mode := 0x43\<rparr>))
        = Some (r, Some obj') \<and>
      tx (dev obj') = tx (dev ((d0_session (map Byte ident_c @ [Byte ch_bang]))\<lparr>mode := 0x43\<rparr>)) @ replicate 65 0 @ signonseq @ tail \<and>
      0 < fd obj' \<and> buffer obj' \<noteq> None \<and> terminal obj' \<and> mode obj' \<noteq> 0x50 \<and>
      wr (dev obj') = [])"
proof -
  let ?obj = "(d0_session (map Byte ident_c @ [Byte ch_bang]))\<lparr>mode := 0x43\<rparr>"
  have h: "0 < fd ?obj" "buffer ?obj = Some zero_mem" "terminal ?obj"
    "mode ?obj \<noteq> 0x50" "wr (dev ?obj) = []"
    by (simp_all add: d0_session_def blank_def tty_dev_def)
  from handshake_every_read [OF h, of "stub_grammar 0 0"] h show ?thesis
    by blast
qed

end
